theory Spec2Isabelle
  imports Main "HOL-Library.Word"
begin

unbundle bit_operations_syntax

section \<open>The MCP WebSocket client of \<^verbatim>\<open>main/mcp_websocket.c\<close>\<close>

text \<open>
  The client is one global struct \<^verbatim>\<open>g_ws_client\<close> driven by a single task,
  \<^verbatim>\<open>websocket_main_task\<close>. The struct becomes a record that every function takes
  and returns. What the task asks of FreeRTOS, the timer service and the transport library
  is an input of the model; what it does to the outside (callbacks, frames written, waits)
  is appended to a trace kept beside the struct.
\<close>

subsection \<open>Constants of \<^verbatim>\<open>mcp_websocket.h\<close>\<close>

definition MCP_WS_MAX_URL_LEN :: nat where "MCP_WS_MAX_URL_LEN = 512"
definition MCP_WS_MAX_PATH_LEN :: nat where "MCP_WS_MAX_PATH_LEN = 512"
definition MCP_WS_MAX_HOST_LEN :: nat where "MCP_WS_MAX_HOST_LEN = 256"
definition MCP_WS_MAX_MESSAGE_LEN :: nat where "MCP_WS_MAX_MESSAGE_LEN = 2048"
definition MCP_WS_RECONNECT_DELAY_MS :: "32 word" where "MCP_WS_RECONNECT_DELAY_MS = 5000"
definition MCP_WS_PING_INTERVAL_MS :: "32 word" where "MCP_WS_PING_INTERVAL_MS = 20000"
definition MCP_WS_SEND_QUEUE_SIZE :: nat where "MCP_WS_SEND_QUEUE_SIZE = 10"
definition MCP_WS_SEND_TIMEOUT_MS :: nat where "MCP_WS_SEND_TIMEOUT_MS = 1000"

subsection \<open>Types of \<^verbatim>\<open>mcp_websocket.h\<close>\<close>

text \<open>
  \<^verbatim>\<open>esp_err_t\<close>: the codes this file returns. \<open>ESP_ERR_CODE\<close> stands for any other
  code a library call hands back (\<^verbatim>\<open>esp_timer_create\<close>).
\<close>

datatype esp_err =
    ESP_OK
  | ESP_FAIL
  | ESP_ERR_NO_MEM
  | ESP_ERR_INVALID_ARG
  | ESP_ERR_INVALID_STATE
  | ESP_ERR_TIMEOUT
  | ESP_ERR_CODE int

datatype mcp_ws_state =
    MCP_WS_STATE_IDLE
  | MCP_WS_STATE_INITIALIZING
  | MCP_WS_STATE_CONNECTING
  | MCP_WS_STATE_CONNECTED
  | MCP_WS_STATE_DISCONNECTING
  | MCP_WS_STATE_DISCONNECTED
  | MCP_WS_STATE_RECONNECTING
  | MCP_WS_STATE_ERROR

datatype mcp_ws_event_type =
    MCP_WS_EVENT_CONNECTED
  | MCP_WS_EVENT_DISCONNECTED
  | MCP_WS_EVENT_MESSAGE_RECEIVED
  | MCP_WS_EVENT_MESSAGE_SENT
  | MCP_WS_EVENT_ERROR

datatype mcp_ws_msg_type =
    MCP_WS_MSG_TYPE_TEXT
  | MCP_WS_MSG_TYPE_PING
  | MCP_WS_MSG_TYPE_PONG
  | MCP_WS_MSG_TYPE_CLOSE

text \<open>
  A \<^verbatim>\<open>char *\<close> that may be \<^verbatim>\<open>NULL\<close> is a \<open>string option\<close>; the bytes it points
  to are the string. \<^verbatim>\<open>size_t\<close> lengths are naturals.
\<close>

record mcp_ws_send_msg =
  type :: mcp_ws_msg_type
  data :: "string option"
  data_len :: nat

text \<open>
  \<^verbatim>\<open>mcp_ws_event_t\<close>. The fields \<^verbatim>\<open>data\<close> and \<^verbatim>\<open>data_len\<close> carry the prefix
  \<open>event_\<close> here, the names being taken by \<open>mcp_ws_send_msg\<close>.
\<close>

record mcp_ws_event =
  event_type :: mcp_ws_event_type
  event_data :: "string option"
  event_data_len :: nat
  error_code :: esp_err

text \<open>A callback is a function pointer: a number names it, \<open>None\<close> is \<^verbatim>\<open>NULL\<close>.\<close>

type_synonym mcp_ws_event_callback = "nat option"

text \<open>
  \<^verbatim>\<open>mcp_ws_config_t\<close>. Its field \<^verbatim>\<open>event_callback\<close> is \<open>config_event_callback\<close>
  here, the client struct having a field of the same name.
\<close>

record mcp_ws_config =
  endpoint :: string
  config_event_callback :: mcp_ws_event_callback
  auto_reconnect :: bool
  reconnect_delay_ms :: "32 word"
  ping_interval_ms :: "32 word"

subsection \<open>The transport library's opcodes and results\<close>

text \<open>
  \<^verbatim>\<open>ws_transport_opcodes_t\<close> of ESP-IDF's \<^verbatim>\<open>esp_transport_ws.h\<close>, as far as the task
  tells them apart; \<open>WS_TRANSPORT_OPCODES_OTHER\<close> is whatever reaches the \<^verbatim>\<open>default\<close>
  branch.
\<close>

datatype ws_transport_opcodes =
    WS_TRANSPORT_OPCODES_TEXT
  | WS_TRANSPORT_OPCODES_BINARY
  | WS_TRANSPORT_OPCODES_CLOSE
  | WS_TRANSPORT_OPCODES_PING
  | WS_TRANSPORT_OPCODES_PONG
  | WS_TRANSPORT_OPCODES_OTHER

text \<open>The numeric value of \<^verbatim>\<open>ESP_ERR_TIMEOUT\<close> in ESP-IDF's \<^verbatim>\<open>esp_err.h\<close>.\<close>

definition ESP_ERR_TIMEOUT_value :: int where
  "ESP_ERR_TIMEOUT_value = 0x107"

subsection \<open>What the task does to the outside\<close>

text \<open>
  The trace lists, in order, the callback invocations, the frames handed to
  \<^verbatim>\<open>esp_transport_ws_send_raw\<close> (opcode, data, length and the call's result), the
  connection attempts, the closes of the transport and the waits of \<^verbatim>\<open>vTaskDelay\<close>
  in milliseconds.
\<close>

datatype effect =
    Callback nat mcp_ws_event
  | WsSendRaw ws_transport_opcodes "string option" nat int
  | TransportConnect "string option" int
  | TransportClose
  | TaskDelay "32 word"

subsection \<open>The client struct\<close>

text \<open>
  \<^verbatim>\<open>esp_timer_handle_t ping_timer\<close>: \<open>None\<close> is \<^verbatim>\<open>NULL\<close>; a created timer is either
  stopped or armed to fire once after a number of microseconds.
\<close>

datatype esp_timer = TIMER_STOPPED | TIMER_ONCE nat

text \<open>
  \<^verbatim>\<open>mcp_websocket_client_t\<close>, field by field. Handles are \<open>True\<close> when not \<^verbatim>\<open>NULL\<close>.
  \<open>send_queue\<close> holds the queued messages, oldest first (the FreeRTOS queue stores
  pointers to them). \<open>trace\<close> is not a field of the C struct: it records the effects
  above.
\<close>

record mcp_websocket_client =
  config :: mcp_ws_config
  event_callback :: mcp_ws_event_callback
  state :: mcp_ws_state
  state_start_time :: "32 word"
  transport_list :: bool
  transport :: bool
  host :: "string option"
  port :: int
  path :: "string option"
  use_ssl :: bool
  main_task :: bool
  send_queue :: "mcp_ws_send_msg list option"
  ping_timer :: "esp_timer option"
  last_ping_time :: "64 word"
  sent_messages :: "32 word"
  received_messages :: "32 word"
  reconnect_count :: "32 word"
  initialized :: bool
  should_stop :: bool
  auto_reconnect_enabled :: bool
  trace :: "effect list"

text \<open>\<^verbatim>\<open>static mcp_websocket_client_t g_ws_client = {0};\<close>\<close>

definition g_ws_client_zero :: mcp_websocket_client where
  "g_ws_client_zero =
     \<lparr> config = \<lparr> endpoint = [], config_event_callback = None, auto_reconnect = False,
                   reconnect_delay_ms = 0, ping_interval_ms = 0 \<rparr>,
       event_callback = None,
       state = MCP_WS_STATE_IDLE,
       state_start_time = 0,
       transport_list = False,
       transport = False,
       host = None,
       port = 0,
       path = None,
       use_ssl = False,
       main_task = False,
       send_queue = None,
       ping_timer = None,
       last_ping_time = 0,
       sent_messages = 0,
       received_messages = 0,
       reconnect_count = 0,
       initialized = False,
       should_stop = False,
       auto_reconnect_enabled = False,
       trace = [] \<rparr>"

subsection \<open>\<^verbatim>\<open>set_state\<close> and \<^verbatim>\<open>trigger_event\<close>\<close>

text \<open>
  \<^verbatim>\<open>set_state\<close> stamps a change of state with \<^verbatim>\<open>esp_timer_get_time() / 1000\<close>,
  truncated to 32 bits. The clock reading (microseconds since boot) is an input.
\<close>

definition set_state :: "nat \<Rightarrow> mcp_ws_state \<Rightarrow> mcp_websocket_client \<Rightarrow> mcp_websocket_client" where
  "set_state t_us new_state s =
     (if state s \<noteq> new_state
      then s\<lparr>state := new_state, state_start_time := of_nat (t_us div 1000)\<rparr>
      else s)"

definition trigger_event ::
  "mcp_ws_event_type \<Rightarrow> string option \<Rightarrow> nat \<Rightarrow> esp_err \<Rightarrow> mcp_websocket_client \<Rightarrow> mcp_websocket_client" where
  "trigger_event ev_type ev_data ev_len err s =
     (case event_callback s of
        None \<Rightarrow> s
      | Some cb \<Rightarrow>
          s\<lparr>trace := trace s @
              [Callback cb \<lparr>event_type = ev_type, event_data = ev_data,
                            event_data_len = ev_len, error_code = err\<rparr>]\<rparr>)"

subsection \<open>The send queue: \<^verbatim>\<open>enqueue_send_message\<close>\<close>

text \<open>
  The two \<^verbatim>\<open>malloc\<close> calls of \<^verbatim>\<open>enqueue_send_message\<close> may fail; which one does is an
  input.
\<close>

datatype msg_alloc = MSG_ALLOC_OK | MSG_ALLOC_FAILS | DATA_ALLOC_FAILS

text \<open>
  \<^verbatim>\<open>xQueueSend(queue, &msg, pdMS_TO_TICKS(MCP_WS_SEND_TIMEOUT_MS))\<close> on a queue created
  with \<^verbatim>\<open>MCP_WS_SEND_QUEUE_SIZE\<close> slots appends when a slot is free and otherwise
  waits for one. The model decides on the queue as it stands at the call: on a full
  queue the wait runs out, nothing having been taken off the queue within the window
  (the only taker is the main task), and the call fails. The message is a copy of the
  first \<^verbatim>\<open>data_len\<close> bytes of \<^verbatim>\<open>data\<close>.
\<close>

definition enqueue_send_message ::
  "msg_alloc \<Rightarrow> mcp_ws_msg_type \<Rightarrow> string option \<Rightarrow> nat \<Rightarrow> mcp_websocket_client
     \<Rightarrow> esp_err \<times> mcp_websocket_client" where
  "enqueue_send_message alloc msg_type msg_data msg_len s =
     (case send_queue s of
        None \<Rightarrow> (ESP_ERR_INVALID_STATE, s)
      | Some q \<Rightarrow>
          if alloc = MSG_ALLOC_FAILS then (ESP_ERR_NO_MEM, s)
          else if msg_data \<noteq> None \<and> msg_len > 0 \<and> alloc = DATA_ALLOC_FAILS
            then (ESP_ERR_NO_MEM, s)
          else
            let msg = \<lparr> type = msg_type,
                        data = (case msg_data of
                                  Some bytes \<Rightarrow> if msg_len > 0 then Some (take msg_len bytes) else None
                                | None \<Rightarrow> None),
                        data_len = msg_len \<rparr>
            in if length q < MCP_WS_SEND_QUEUE_SIZE
               then (ESP_OK, s\<lparr>send_queue := Some (q @ [msg])\<rparr>)
               else (ESP_ERR_TIMEOUT, s))"

text \<open>
  A run of calls to \<^verbatim>\<open>enqueue_send_message\<close> with nothing taken off the queue in
  between, as the producers (\<^verbatim>\<open>mcp_websocket_send_text\<close>, the ping timer) make them;
  the results come back in call order.
\<close>

type_synonym enqueue_call = "msg_alloc \<times> mcp_ws_msg_type \<times> string option \<times> nat"

fun enqueue_calls :: "enqueue_call list \<Rightarrow> mcp_websocket_client \<Rightarrow> esp_err list \<times> mcp_websocket_client" where
  "enqueue_calls [] s = ([], s)"
| "enqueue_calls ((alloc, msg_type, msg_data, msg_len) # calls) s =
     (let (r, s') = enqueue_send_message alloc msg_type msg_data msg_len s;
          (rs, s'') = enqueue_calls calls s'
      in (r # rs, s''))"

text \<open>The message a call stores when it succeeds.\<close>

definition message_of :: "enqueue_call \<Rightarrow> mcp_ws_send_msg" where
  "message_of c =
     (case c of (alloc, msg_type, msg_data, msg_len) \<Rightarrow>
        \<lparr> type = msg_type,
          data = (case msg_data of
                    Some bytes \<Rightarrow> if msg_len > 0 then Some (take msg_len bytes) else None
                  | None \<Rightarrow> None),
          data_len = msg_len \<rparr>)"

text \<open>C strings end at the first NUL byte.\<close>

definition c_str :: "string \<Rightarrow> string" where
  "c_str s = takeWhile (\<lambda>c. c \<noteq> CHR 0x00) s"

definition strlen :: "string \<Rightarrow> nat" where
  "strlen s = length (c_str s)"

text \<open>\<^verbatim>\<open>mcp_websocket_send_text\<close> and \<^verbatim>\<open>mcp_websocket_send\<close>.\<close>

definition mcp_websocket_send_text ::
  "msg_alloc \<Rightarrow> string option \<Rightarrow> mcp_websocket_client \<Rightarrow> esp_err \<times> mcp_websocket_client" where
  "mcp_websocket_send_text alloc message s =
     (case message of
        None \<Rightarrow> (ESP_ERR_INVALID_ARG, s)
      | Some m \<Rightarrow> enqueue_send_message alloc MCP_WS_MSG_TYPE_TEXT (Some m) (strlen m) s)"

definition mcp_websocket_send ::
  "msg_alloc \<Rightarrow> string option \<Rightarrow> nat \<Rightarrow> mcp_websocket_client \<Rightarrow> esp_err \<times> mcp_websocket_client" where
  "mcp_websocket_send alloc msg_data len s =
     (if msg_data = None \<or> len = 0 then (ESP_ERR_INVALID_ARG, s)
      else enqueue_send_message alloc MCP_WS_MSG_TYPE_TEXT msg_data len s)"

subsection \<open>The endpoint parser: \<^verbatim>\<open>parse_url\<close>\<close>

text \<open>
  \<^verbatim>\<open>strlcpy(dst, src, n)\<close> copies at most \<open>n - 1\<close> bytes of the C string
  \<open>src\<close>. \<^verbatim>\<open>strchr(s, c)\<close> is the rest of \<open>s\<close> from the first \<open>c\<close> on, or
  \<^verbatim>\<open>NULL\<close>.
\<close>

definition strlcpy :: "string \<Rightarrow> nat \<Rightarrow> string" where
  "strlcpy src n = take (n - 1) (c_str src)"

definition strchr :: "string \<Rightarrow> char \<Rightarrow> string option" where
  "strchr s c = (case dropWhile (\<lambda>x. x \<noteq> c) s of [] \<Rightarrow> None | r \<Rightarrow> Some r)"

text \<open>
  \<^verbatim>\<open>atoi\<close> of the C library: white space is skipped, one sign is read, then decimal
  digits up to the first other character; no digits give 0. newlib, the C library of
  ESP-IDF, computes it as \<^verbatim>\<open>(int) strtol(s, NULL, 10)\<close>, which stops at the ends of
  the 32-bit range.
\<close>

definition isspace :: "char \<Rightarrow> bool" where
  "isspace c \<longleftrightarrow> c = CHR '' '' \<or> c = CHR 0x09 \<or> c = CHR 0x0A \<or> c = CHR 0x0B
                 \<or> c = CHR 0x0C \<or> c = CHR 0x0D"

definition isdigit :: "char \<Rightarrow> bool" where
  "isdigit c \<longleftrightarrow> 48 \<le> (of_char c :: nat) \<and> (of_char c :: nat) \<le> 57"

fun strtol_digits :: "int \<Rightarrow> string \<Rightarrow> int" where
  "strtol_digits acc [] = acc"
| "strtol_digits acc (c # cs) =
     (if isdigit c then strtol_digits (acc * 10 + (of_char c - 48)) cs else acc)"

definition atoi :: "string \<Rightarrow> int" where
  "atoi s =
     (let t = dropWhile isspace s;
          (neg, ds) = (case t of
                         [] \<Rightarrow> (False, t)
                       | c # r \<Rightarrow> if c = CHR ''-'' then (True, r)
                                  else if c = CHR ''+'' then (False, r)
                                  else (False, t));
          v = strtol_digits 0 ds;
          n = (if neg then - v else v)
      in max (- (2 ^ 31)) (min (2 ^ 31 - 1) n))"

text \<open>
  Which of the three \<^verbatim>\<open>malloc\<close> calls of \<^verbatim>\<open>parse_url\<close> fails, if any: the copy of
  the URL, or one of the host and path buffers.
\<close>

datatype url_alloc = URL_ALLOC_OK | URL_COPY_ALLOC_FAILS | HOST_PATH_ALLOC_FAILS

text \<open>
  The last section of \<^verbatim>\<open>parse_url\<close> (the port check), on the host and path buffers
  filled so far. \<open>s\<close> is the struct with both buffers freed, which is what every
  failure leaves behind.
\<close>

definition parse_url_port :: "string \<Rightarrow> string \<Rightarrow> mcp_websocket_client \<Rightarrow> esp_err \<times> mcp_websocket_client" where
  "parse_url_port host_buf path_buf s =
     (case strchr host_buf CHR '':'' of
        None \<Rightarrow> (ESP_OK, s\<lparr>host := Some host_buf, path := Some path_buf\<rparr>)
      | Some port_start \<Rightarrow>
          let parsed_port = atoi (tl port_start)
          in if parsed_port > 0 \<and> parsed_port \<le> 65535
             then (ESP_OK, s\<lparr>host := Some (take (length host_buf - length port_start) host_buf),
                              port := parsed_port,
                              path := Some path_buf\<rparr>)
             else (ESP_ERR_INVALID_ARG, s))"

text \<open>
  The middle section of \<^verbatim>\<open>parse_url\<close> (host and path), on the URL behind the
  scheme. \<open>s\<close> is the struct with the scheme's port set and both buffers freshly
  allocated.
\<close>

definition parse_url_host :: "string \<Rightarrow> mcp_websocket_client \<Rightarrow> esp_err \<times> mcp_websocket_client" where
  "parse_url_host work_url s =
     (case strchr work_url CHR ''/'' of
        Some path_start \<Rightarrow>
          let host_len = length work_url - length path_start
          in if host_len > 0 \<and> host_len < MCP_WS_MAX_HOST_LEN
             then parse_url_port (take host_len work_url)
                    (strlcpy path_start MCP_WS_MAX_PATH_LEN) s
             else (ESP_ERR_INVALID_ARG, s)
      | None \<Rightarrow>
          parse_url_port (strlcpy work_url MCP_WS_MAX_HOST_LEN) ''/mcp/'' s)"

definition parse_url :: "url_alloc \<Rightarrow> string \<Rightarrow> mcp_websocket_client \<Rightarrow> esp_err \<times> mcp_websocket_client" where
  "parse_url alloc endpoint_str s =
     (if alloc = URL_COPY_ALLOC_FAILS then (ESP_ERR_NO_MEM, s)
      else
        let url_copy = strlcpy endpoint_str MCP_WS_MAX_URL_LEN;
            scheme = (if take 6 url_copy = ''wss://'' then Some (True, 443, drop 6 url_copy)
                      else if take 5 url_copy = ''ws://'' then Some (False, 80, drop 5 url_copy)
                      else None)
        in case scheme of
             None \<Rightarrow> (ESP_ERR_INVALID_ARG, s)
           | Some (ssl, default_port, work_url) \<Rightarrow>
               let s1 = s\<lparr>use_ssl := ssl, port := default_port, host := None, path := None\<rparr>
               in if alloc = HOST_PATH_ALLOC_FAILS then (ESP_ERR_NO_MEM, s1)
                  else parse_url_host work_url s1)"

subsection \<open>The transport: \<^verbatim>\<open>cleanup_transport\<close> and \<^verbatim>\<open>create_transport_list\<close>\<close>

definition cleanup_transport :: "mcp_websocket_client \<Rightarrow> mcp_websocket_client" where
  "cleanup_transport s =
     (let s1 = (case send_queue s of None \<Rightarrow> s | Some q \<Rightarrow> s\<lparr>send_queue := Some []\<rparr>);
          s2 = (if transport s1 then s1\<lparr>trace := trace s1 @ [TransportClose]\<rparr> else s1)
      in if transport_list s2 then s2\<lparr>transport_list := False, transport := False\<rparr> else s2)"

text \<open>
  Which constructor of the transport library returns \<^verbatim>\<open>NULL\<close>, if any: the list,
  the TCP or SSL transport under the WebSocket one, or the WebSocket transport. The
  \<^verbatim>\<open>use_ssl\<close> branch and the plain one differ in the library objects they configure
  (default port, user agent, headers), which the struct does not hold.
\<close>

datatype transport_init = TRANSPORT_INIT_OK | LIST_INIT_FAILS | BASE_INIT_FAILS | WS_INIT_FAILS

definition create_transport_list :: "transport_init \<Rightarrow> mcp_websocket_client \<Rightarrow> esp_err \<times> mcp_websocket_client" where
  "create_transport_list init s =
     (let s1 = cleanup_transport s
      in if init = LIST_INIT_FAILS then (ESP_ERR_NO_MEM, s1\<lparr>transport_list := False\<rparr>)
         else
           let s2 = s1\<lparr>transport_list := True\<rparr>
           in if init = BASE_INIT_FAILS then (ESP_ERR_NO_MEM, s2)
              else if init = WS_INIT_FAILS then (ESP_ERR_NO_MEM, s2\<lparr>transport := False\<rparr>)
              else (ESP_OK, s2\<lparr>transport := True\<rparr>))"

subsection \<open>The ping timer: \<^verbatim>\<open>ping_timer_callback\<close>\<close>

text \<open>
  Runs on the timer task: it offers a PING of four fixed bytes to the send queue and
  arms the timer again. \<^verbatim>\<open>ping_interval_ms * 1000\<close> is a 32-bit product.
\<close>

definition ping_timer_callback :: "msg_alloc \<Rightarrow> mcp_websocket_client \<Rightarrow> mcp_websocket_client" where
  "ping_timer_callback alloc s =
     (let s1 = snd (enqueue_send_message alloc MCP_WS_MSG_TYPE_PING
                      (Some [CHR 0x12, CHR 0x34, CHR 0x56, CHR 0x78]) 4 s)
      in case ping_timer s1 of
           None \<Rightarrow> s1
         | Some tm \<Rightarrow> s1\<lparr>ping_timer := Some (TIMER_ONCE (unat (ping_interval_ms (config s1) * 1000)))\<rparr>)"

subsection \<open>Reconnect backoff (state \<^verbatim>\<open>MCP_WS_STATE_RECONNECTING\<close>)\<close>

text \<open>
  \<^verbatim>\<open>
  uint32_t delay_ms = g_ws_client.config.reconnect_delay_ms;
  if (g_ws_client.reconnect_count > 3) {
      delay_ms *= (1 << (g_ws_client.reconnect_count - 3));
      if (delay_ms > 60000) delay_ms = 60000;
  }
  \<close>
  Both operands of the product are 32 bits wide: \<^verbatim>\<open>1 << n\<close> is an \<^verbatim>\<open>int\<close>,
  converted to \<^verbatim>\<open>uint32_t\<close> for the multiplication, which wraps modulo \<open>2^32\<close>.
  C defines \<^verbatim>\<open>1 << n\<close> on a 32-bit \<^verbatim>\<open>int\<close> only for \<open>n < 31\<close>; beyond that the
  model returns \<open>None\<close>.
\<close>

definition reconnect_backoff_ms :: "32 word \<Rightarrow> 32 word \<Rightarrow> 32 word option" where
  "reconnect_backoff_ms base_delay_ms count =
     (if count > 3 then
        (if unat (count - 3) < 31 then
           (let delay_ms = base_delay_ms * push_bit (unat (count - 3)) 1
            in Some (if delay_ms > 60000 then 60000 else delay_ms))
         else None)
      else Some base_delay_ms)"

subsection \<open>The main task: \<^verbatim>\<open>websocket_main_task\<close>\<close>

text \<open>
  What one pass of the task's loop reads from the outside: the clock (one reading
  serves every \<^verbatim>\<open>set_state\<close> of the pass), the results of
  the transport library's calls (the \<open>i\<close>-th \<^verbatim>\<open>esp_transport_ws_send_raw\<close> of the
  pass returns \<open>send_raw_result i\<close>), the memory left for the PONG reply, and the calls
  that the producers on other tasks make to \<^verbatim>\<open>enqueue_send_message\<close> while the main
  task waits in \<^verbatim>\<open>esp_transport_read\<close> (up to 500 ms).
\<close>

record task_env =
  clock_us :: nat
  transport_init_result :: transport_init
  connect_result :: int
  upgrade_request_status :: int
  send_raw_result :: "nat \<Rightarrow> int"
  producers :: "enqueue_call list"
  read_len :: int
  read_opcode :: ws_transport_opcodes
  recv_buffer :: string
  pong_alloc :: msg_alloc

definition vTaskDelay_ms :: "32 word \<Rightarrow> mcp_websocket_client \<Rightarrow> mcp_websocket_client" where
  "vTaskDelay_ms ms s = s\<lparr>trace := trace s @ [TaskDelay ms]\<rparr>"

text \<open>The \<^verbatim>\<open>switch (send_msg->type)\<close> that picks the opcode.\<close>

fun opcode_of :: "mcp_ws_msg_type \<Rightarrow> ws_transport_opcodes" where
  "opcode_of MCP_WS_MSG_TYPE_TEXT = WS_TRANSPORT_OPCODES_TEXT"
| "opcode_of MCP_WS_MSG_TYPE_PING = WS_TRANSPORT_OPCODES_PING"
| "opcode_of MCP_WS_MSG_TYPE_PONG = WS_TRANSPORT_OPCODES_PONG"
| "opcode_of MCP_WS_MSG_TYPE_CLOSE = WS_TRANSPORT_OPCODES_CLOSE"

text \<open>
  The body of the loop over the send queue, for one message taken off the queue:
  \<open>sent\<close> is what \<^verbatim>\<open>esp_transport_ws_send_raw\<close> returns for it.
\<close>

definition send_queued_message ::
  "nat \<Rightarrow> int \<Rightarrow> mcp_ws_send_msg \<Rightarrow> mcp_websocket_client \<Rightarrow> mcp_websocket_client" where
  "send_queued_message t_us sent send_msg s =
     (if transport s then
        let s1 = s\<lparr>trace := trace s @
                     [WsSendRaw (opcode_of (type send_msg)) (data send_msg) (data_len send_msg) sent]\<rparr>
        in if sent < 0 then set_state t_us MCP_WS_STATE_DISCONNECTED s1
           else
             let s2 = s1\<lparr>sent_messages := sent_messages s1 + 1\<rparr>
             in if type send_msg = MCP_WS_MSG_TYPE_TEXT
                then trigger_event MCP_WS_EVENT_MESSAGE_SENT (data send_msg) (data_len send_msg) ESP_OK s2
                else s2
      else s)"

text \<open>
  \<^verbatim>\<open>while (xQueueReceive(send_queue, &send_msg, 0) == pdTRUE) { ... }\<close>: the messages
  leave the queue oldest first until it is empty; \<open>i\<close> counts them.
\<close>

fun drain_send_queue ::
  "nat \<Rightarrow> (nat \<Rightarrow> int) \<Rightarrow> nat \<Rightarrow> mcp_ws_send_msg list \<Rightarrow> mcp_websocket_client \<Rightarrow> mcp_websocket_client" where
  "drain_send_queue t_us results i [] s = s"
| "drain_send_queue t_us results i (send_msg # rest) s =
     drain_send_queue t_us results (Suc i) rest (send_queued_message t_us (results i) send_msg s)"

text \<open>
  The receive half of state \<^verbatim>\<open>MCP_WS_STATE_CONNECTED\<close>. The payload of a frame is the
  first \<open>read_len\<close> bytes of the receive buffer.
\<close>

definition receive_frame :: "task_env \<Rightarrow> mcp_websocket_client \<Rightarrow> mcp_websocket_client" where
  "receive_frame e s =
     (if transport s then
        let len = read_len e
        in if len > 0 then
             (case read_opcode e of
                WS_TRANSPORT_OPCODES_TEXT \<Rightarrow>
                  trigger_event MCP_WS_EVENT_MESSAGE_RECEIVED
                    (Some (take (nat len) (recv_buffer e))) (nat len) ESP_OK
                    (s\<lparr>received_messages := received_messages s + 1\<rparr>)
              | WS_TRANSPORT_OPCODES_BINARY \<Rightarrow>
                  trigger_event MCP_WS_EVENT_MESSAGE_RECEIVED
                    (Some (take (nat len) (recv_buffer e))) (nat len) ESP_OK
                    (s\<lparr>received_messages := received_messages s + 1\<rparr>)
              | WS_TRANSPORT_OPCODES_CLOSE \<Rightarrow>
                  set_state (clock_us e) MCP_WS_STATE_DISCONNECTED s
              | WS_TRANSPORT_OPCODES_PING \<Rightarrow>
                  snd (enqueue_send_message (pong_alloc e) MCP_WS_MSG_TYPE_PONG
                         (Some (recv_buffer e)) (nat len) s)
              | WS_TRANSPORT_OPCODES_PONG \<Rightarrow> s
              | WS_TRANSPORT_OPCODES_OTHER \<Rightarrow> s)
           else if len < 0 \<and> len \<noteq> ESP_ERR_TIMEOUT_value
             then set_state (clock_us e) MCP_WS_STATE_DISCONNECTED s
           else s
      else s)"

text \<open>State \<^verbatim>\<open>MCP_WS_STATE_CONNECTING\<close>.\<close>

definition connecting_step :: "task_env \<Rightarrow> mcp_websocket_client \<Rightarrow> mcp_websocket_client" where
  "connecting_step e s =
     (let s1 = s\<lparr>trace := trace s @ [TransportConnect (host s) (port s)]\<rparr>;
          result = connect_result e
      in if result < 0 then set_state (clock_us e) MCP_WS_STATE_DISCONNECTED s1
         else
           let status = upgrade_request_status e
           in if status = 101 then
                let s2 = set_state (clock_us e) MCP_WS_STATE_CONNECTED s1;
                    s3 = s2\<lparr>reconnect_count := 0\<rparr>;
                    s4 = trigger_event MCP_WS_EVENT_CONNECTED None 0 ESP_OK s3
                in (case ping_timer s4 of
                      None \<Rightarrow> s4
                    | Some tm \<Rightarrow> s4\<lparr>ping_timer := Some (TIMER_ONCE (5000 * 1000))\<rparr>)
              else set_state (clock_us e) MCP_WS_STATE_DISCONNECTED s1)"

text \<open>State \<^verbatim>\<open>MCP_WS_STATE_DISCONNECTED\<close>.\<close>

definition disconnected_step :: "task_env \<Rightarrow> mcp_websocket_client \<Rightarrow> mcp_websocket_client" where
  "disconnected_step e s =
     (let s1 = (case ping_timer s of None \<Rightarrow> s | Some tm \<Rightarrow> s\<lparr>ping_timer := Some TIMER_STOPPED\<rparr>);
          s2 = cleanup_transport s1;
          s3 = trigger_event MCP_WS_EVENT_DISCONNECTED None 0 ESP_OK s2
      in if auto_reconnect_enabled s3 \<and> \<not> should_stop s3
         then set_state (clock_us e) MCP_WS_STATE_RECONNECTING
                (s3\<lparr>reconnect_count := reconnect_count s3 + 1\<rparr>)
         else set_state (clock_us e) MCP_WS_STATE_IDLE s3)"

text \<open>
  One pass through the \<^verbatim>\<open>switch (g_ws_client.state)\<close>. The result is \<open>None\<close> where C
  leaves the behaviour undefined: the shift of the backoff, and
  \<^verbatim>\<open>xQueueReceive\<close> on a \<^verbatim>\<open>NULL\<close> queue. The enum value
  \<^verbatim>\<open>MCP_WS_STATE_DISCONNECTING\<close> has no case of its own and takes the \<^verbatim>\<open>default\<close>
  branch.
\<close>

definition websocket_main_task_step :: "task_env \<Rightarrow> mcp_websocket_client \<Rightarrow> mcp_websocket_client option" where
  "websocket_main_task_step e s =
     (case state s of
        MCP_WS_STATE_IDLE \<Rightarrow> Some (vTaskDelay_ms 100 s)
      | MCP_WS_STATE_INITIALIZING \<Rightarrow>
          (let (ret, s1) = create_transport_list (transport_init_result e) s
           in if ret = ESP_OK then Some (set_state (clock_us e) MCP_WS_STATE_CONNECTING s1)
              else Some (set_state (clock_us e) MCP_WS_STATE_ERROR s1))
      | MCP_WS_STATE_CONNECTING \<Rightarrow> Some (connecting_step e s)
      | MCP_WS_STATE_CONNECTED \<Rightarrow>
          (case send_queue s of
             None \<Rightarrow> None
           | Some q \<Rightarrow>
               let s1 = drain_send_queue (clock_us e) (send_raw_result e) 0 q (s\<lparr>send_queue := Some []\<rparr>);
                   s2 = snd (enqueue_calls (producers e) s1);
                   s3 = receive_frame e s2
               in Some (vTaskDelay_ms 10 s3))
      | MCP_WS_STATE_DISCONNECTED \<Rightarrow> Some (disconnected_step e s)
      | MCP_WS_STATE_RECONNECTING \<Rightarrow>
          (case reconnect_backoff_ms (reconnect_delay_ms (config s)) (reconnect_count s) of
             None \<Rightarrow> None
           | Some delay_ms \<Rightarrow>
               Some (set_state (clock_us e) MCP_WS_STATE_INITIALIZING (vTaskDelay_ms delay_ms s)))
      | MCP_WS_STATE_ERROR \<Rightarrow>
          Some (vTaskDelay_ms 1000
                  (trigger_event MCP_WS_EVENT_ERROR None 0 ESP_FAIL (cleanup_transport s)))
      | MCP_WS_STATE_DISCONNECTING \<Rightarrow> Some (set_state (clock_us e) MCP_WS_STATE_ERROR s))"

text \<open>
  What follows the loop: the queue is emptied and \<^verbatim>\<open>main_task\<close> set to \<^verbatim>\<open>NULL\<close>.
\<close>

definition websocket_main_task_exit :: "mcp_websocket_client \<Rightarrow> mcp_websocket_client option" where
  "websocket_main_task_exit s =
     (case send_queue s of
        None \<Rightarrow> None
      | Some q \<Rightarrow> Some (s\<lparr>send_queue := Some [], main_task := False\<rparr>))"

text \<open>
  \<^verbatim>\<open>while (!g_ws_client.should_stop) { switch ... }\<close>, one environment per pass. When
  the environments run out the task is still in its loop and the result is the struct
  as it stands.
\<close>

fun websocket_main_task_loop :: "task_env list \<Rightarrow> mcp_websocket_client \<Rightarrow> mcp_websocket_client option" where
  "websocket_main_task_loop [] s = Some s"
| "websocket_main_task_loop (e # es) s =
     (if should_stop s then websocket_main_task_exit s
      else (case websocket_main_task_step e s of
              None \<Rightarrow> None
            | Some s' \<Rightarrow> websocket_main_task_loop es s'))"

text \<open>
  The task from its start: without memory for the receive buffer it sets the state to
  \<^verbatim>\<open>MCP_WS_STATE_ERROR\<close> and deletes itself.
\<close>

definition websocket_main_task ::
  "bool \<Rightarrow> nat \<Rightarrow> task_env list \<Rightarrow> mcp_websocket_client \<Rightarrow> mcp_websocket_client option" where
  "websocket_main_task recv_buffer_ok t_us es s =
     (if \<not> recv_buffer_ok then Some (set_state t_us MCP_WS_STATE_ERROR s)
      else websocket_main_task_loop es s)"

subsection \<open>The public API\<close>

text \<open>
  What \<^verbatim>\<open>mcp_websocket_init\<close> reads from the outside: the memory for \<^verbatim>\<open>parse_url\<close>,
  whether \<^verbatim>\<open>xQueueCreate\<close> returns a queue, what \<^verbatim>\<open>esp_timer_create\<close> returns, and
  the clock. \<open>None\<close> for the configuration is a \<^verbatim>\<open>NULL\<close> pointer. When the timer
  cannot be created the queue is deleted and its handle left in the struct; the model
  keeps it as an empty queue.
\<close>

record init_env =
  init_url_alloc :: url_alloc
  queue_created :: bool
  timer_create_result :: esp_err
  init_clock_us :: nat

definition mcp_websocket_init ::
  "init_env \<Rightarrow> mcp_ws_config option \<Rightarrow> mcp_websocket_client \<Rightarrow> esp_err \<times> mcp_websocket_client" where
  "mcp_websocket_init ie cfg s =
     (case cfg of
        None \<Rightarrow> (ESP_ERR_INVALID_ARG, s)
      | Some c \<Rightarrow>
          if strlen (endpoint c) = 0 then (ESP_ERR_INVALID_ARG, s)
          else if initialized s then (ESP_OK, s)
          else
            let s1 = s\<lparr>config := c,
                       event_callback := config_event_callback c,
                       auto_reconnect_enabled := auto_reconnect c\<rparr>;
                s2 = (if reconnect_delay_ms (config s1) = 0
                      then s1\<lparr>config := (config s1)\<lparr>reconnect_delay_ms := MCP_WS_RECONNECT_DELAY_MS\<rparr>\<rparr>
                      else s1);
                s3 = (if ping_interval_ms (config s2) = 0
                      then s2\<lparr>config := (config s2)\<lparr>ping_interval_ms := MCP_WS_PING_INTERVAL_MS\<rparr>\<rparr>
                      else s2);
                (ret, s4) = parse_url (init_url_alloc ie) (endpoint (config s3)) s3
            in if ret \<noteq> ESP_OK then (ret, s4)
               else if \<not> queue_created ie then (ESP_ERR_NO_MEM, s4\<lparr>send_queue := None\<rparr>)
               else
                 let s5 = s4\<lparr>send_queue := Some []\<rparr>
                 in if timer_create_result ie \<noteq> ESP_OK then (timer_create_result ie, s5)
                    else
                      let s6 = s5\<lparr>ping_timer := Some TIMER_STOPPED\<rparr>;
                          s7 = set_state (init_clock_us ie) MCP_WS_STATE_IDLE s6
                      in (ESP_OK, s7\<lparr>initialized := True\<rparr>))"

text \<open>\<^verbatim>\<open>mcp_websocket_start\<close>; \<open>task_created\<close> says whether \<^verbatim>\<open>xTaskCreate\<close> made the task.\<close>

definition mcp_websocket_start ::
  "bool \<Rightarrow> nat \<Rightarrow> mcp_websocket_client \<Rightarrow> esp_err \<times> mcp_websocket_client" where
  "mcp_websocket_start task_created t_us s =
     (if \<not> initialized s then (ESP_ERR_INVALID_STATE, s)
      else if main_task s then (ESP_OK, s)
      else
        let s1 = s\<lparr>should_stop := False, auto_reconnect_enabled := auto_reconnect (config s)\<rparr>
        in if \<not> task_created then (ESP_ERR_NO_MEM, s1)
           else (ESP_OK, set_state t_us MCP_WS_STATE_INITIALIZING (s1\<lparr>main_task := True\<rparr>)))"

text \<open>
  \<^verbatim>\<open>mcp_websocket_stop\<close> up to its wait for the task to end (lines 703 to 721): it
  raises \<^verbatim>\<open>should_stop\<close>, switches auto-reconnect off, stops the ping timer, offers a
  CLOSE message to the queue when the state is \<^verbatim>\<open>MCP_WS_STATE_CONNECTED\<close>, and sets
  the state to \<^verbatim>\<open>MCP_WS_STATE_DISCONNECTED\<close>. It runs on the caller's task; the model
  takes it as one step between two passes of the main task.
\<close>

definition mcp_websocket_stop_request ::
  "msg_alloc \<Rightarrow> nat \<Rightarrow> mcp_websocket_client \<Rightarrow> mcp_websocket_client" where
  "mcp_websocket_stop_request alloc t_us s =
     (if \<not> initialized s then s
      else
        let s1 = s\<lparr>should_stop := True, auto_reconnect_enabled := False\<rparr>;
            s2 = (case ping_timer s1 of None \<Rightarrow> s1 | Some tm \<Rightarrow> s1\<lparr>ping_timer := Some TIMER_STOPPED\<rparr>);
            s3 = (if state s2 = MCP_WS_STATE_CONNECTED
                  then snd (enqueue_send_message alloc MCP_WS_MSG_TYPE_CLOSE None 0 s2)
                  else s2)
        in set_state t_us MCP_WS_STATE_DISCONNECTED s3)"

definition mcp_websocket_get_state :: "mcp_websocket_client \<Rightarrow> mcp_ws_state" where
  "mcp_websocket_get_state s = state s"

definition mcp_websocket_is_connected :: "mcp_websocket_client \<Rightarrow> bool" where
  "mcp_websocket_is_connected s \<longleftrightarrow> state s = MCP_WS_STATE_CONNECTED"

text \<open>\<^verbatim>\<open>mcp_websocket_get_stats\<close>, with all three pointers given.\<close>

definition mcp_websocket_get_stats :: "mcp_websocket_client \<Rightarrow> 32 word \<times> 32 word \<times> 32 word" where
  "mcp_websocket_get_stats s = (sent_messages s, received_messages s, reconnect_count s)"

subsection \<open>Projections of the trace\<close>

text \<open>The events handed to the callback, and the frames handed to the transport.\<close>

fun callbacks_of :: "effect list \<Rightarrow> mcp_ws_event list" where
  "callbacks_of [] = []"
| "callbacks_of (Callback cb ev # xs) = ev # callbacks_of xs"
| "callbacks_of (x # xs) = callbacks_of xs"


subsection \<open>Notions the properties are stated with\<close>

text \<open>
  The messages of a queue whose write succeeds, when the \<open>i\<close>-th message written in the
  pass gets the result \<open>results i\<close>; the event that \<^verbatim>\<open>trigger_event\<close> builds for a
  message sent; the frame handed to the transport for a message; the number of messages
  waiting.
\<close>

fun written :: "(nat \<Rightarrow> int) \<Rightarrow> nat \<Rightarrow> mcp_ws_send_msg list \<Rightarrow> mcp_ws_send_msg list" where
  "written results i [] = []"
| "written results i (m # ms) =
     (if 0 \<le> results i then m # written results (Suc i) ms else written results (Suc i) ms)"

definition message_sent_event :: "mcp_ws_send_msg \<Rightarrow> mcp_ws_event" where
  "message_sent_event m =
     \<lparr>event_type = MCP_WS_EVENT_MESSAGE_SENT, event_data = data m,
      event_data_len = data_len m, error_code = ESP_OK\<rparr>"


definition queue_length :: "mcp_websocket_client \<Rightarrow> nat" where
  "queue_length s = (case send_queue s of None \<Rightarrow> 0 | Some q \<Rightarrow> length q)"

definition is_message_sent :: "mcp_ws_event \<Rightarrow> bool" where
  "is_message_sent ev \<longleftrightarrow> event_type ev = MCP_WS_EVENT_MESSAGE_SENT"

text \<open>
  The number that a string of decimal digits writes, and the text that an optional port
  adds to a URL behind the host: nothing, or a colon and the port's digits.
\<close>

definition decimal :: "string \<Rightarrow> nat" where
  "decimal ds = foldl (\<lambda>acc c. acc * 10 + (of_char c - 48)) 0 ds"

definition port_suffix :: "string option \<Rightarrow> string" where
  "port_suffix pt = (case pt of None \<Rightarrow> [] | Some ds \<Rightarrow> CHR '':'' # ds)"

subsection \<open>Inputs for the examples\<close>

text \<open>
  An environment in which nothing arrives and every call succeeds: the connection
  opens with status 101, writes succeed, the read times out with 0 bytes, no producer
  runs. The examples below change single fields of it.
\<close>

definition quiet_env :: task_env where
  "quiet_env =
     \<lparr> clock_us = 7000000,
       transport_init_result = TRANSPORT_INIT_OK,
       connect_result = 0,
       upgrade_request_status = 101,
       send_raw_result = (\<lambda>i. 1),
       producers = [],
       read_len = 0,
       read_opcode = WS_TRANSPORT_OPCODES_OTHER,
       recv_buffer = [],
       pong_alloc = MSG_ALLOC_OK \<rparr>"

text \<open>
  A client after a successful \<^verbatim>\<open>mcp_websocket_init\<close> and \<^verbatim>\<open>mcp_websocket_start\<close>
  for \<^verbatim>\<open>ws://example.com/mcp/\<close> with callback 1 and auto-reconnect, whose transport
  has been created.
\<close>

definition started_client :: mcp_websocket_client where
  "started_client =
     g_ws_client_zero
       \<lparr> config := \<lparr> endpoint = ''ws://example.com/mcp/'', config_event_callback = Some 1,
                      auto_reconnect = True, reconnect_delay_ms = 5000,
                      ping_interval_ms = 20000 \<rparr>,
         event_callback := Some 1,
         state := MCP_WS_STATE_CONNECTING,
         transport_list := True,
         transport := True,
         host := Some ''example.com'',
         port := 80,
         path := Some ''/mcp/'',
         main_task := True,
         send_queue := Some [],
         ping_timer := Some TIMER_STOPPED,
         initialized := True,
         auto_reconnect_enabled := True \<rparr>"

text \<open>The delay as the specification words it, on unbounded naturals.\<close>

definition spec_backoff_ms :: "nat \<Rightarrow> nat \<Rightarrow> nat" where
  "spec_backoff_ms base_delay k =
     (if k \<le> 3 then base_delay else min (base_delay * 2 ^ (k - 3)) 60000)"

section \<open>Properties\<close>

subsection \<open>How the functions leave the struct\<close>

lemma callbacks_of_append: "callbacks_of (xs @ ys) = callbacks_of xs @ callbacks_of ys"
  by (induction xs rule: callbacks_of.induct) simp_all


lemma set_state_eq:
  "set_state t st s =
     s\<lparr>state := st,
       state_start_time := (if state s = st then state_start_time s else of_nat (t div 1000))\<rparr>"
  by (simp add: set_state_def)

lemma enqueue_send_message_other_fields:
  "snd (enqueue_send_message a ty d n s) =
     s\<lparr>send_queue := send_queue (snd (enqueue_send_message a ty d n s))\<rparr>"
  by (simp add: enqueue_send_message_def Let_def split: option.splits)

lemma snd_enqueue_calls_Cons:
  "snd (enqueue_calls (c # calls) s) =
     snd (enqueue_calls calls
            (snd (enqueue_send_message (fst c) (fst (snd c)) (fst (snd (snd c))) (snd (snd (snd c))) s)))"
  by (cases c) (simp add: case_prod_beta)

lemma enqueue_calls_other_fields:
  "snd (enqueue_calls calls s) = s\<lparr>send_queue := send_queue (snd (enqueue_calls calls s))\<rparr>"
proof (induction calls arbitrary: s)
  case Nil
  show ?case by simp
next
  case (Cons c calls)
  let ?s1 = "snd (enqueue_send_message (fst c) (fst (snd c)) (fst (snd (snd c))) (snd (snd (snd c))) s)"
  have "snd (enqueue_calls (c # calls) s) = snd (enqueue_calls calls ?s1)"
    by (rule snd_enqueue_calls_Cons)
  also have "\<dots> = ?s1\<lparr>send_queue := send_queue (snd (enqueue_calls calls ?s1))\<rparr>"
    by (rule Cons.IH)
  also have "\<dots> = s\<lparr>send_queue := send_queue (snd (enqueue_calls calls ?s1))\<rparr>"
    by (subst enqueue_send_message_other_fields) simp
  finally show ?case
    by (simp add: snd_enqueue_calls_Cons)
qed

lemma send_queued_message_fields:
  "transport (send_queued_message t r m s) = transport s"
  "event_callback (send_queued_message t r m s) = event_callback s"
  "auto_reconnect_enabled (send_queued_message t r m s) = auto_reconnect_enabled s"
  "should_stop (send_queued_message t r m s) = should_stop s"
  "reconnect_count (send_queued_message t r m s) = reconnect_count s"
  "received_messages (send_queued_message t r m s) = received_messages s"
  "send_queue (send_queued_message t r m s) = send_queue s"
  "ping_timer (send_queued_message t r m s) = ping_timer s"
  by (simp_all add: send_queued_message_def Let_def set_state_eq trigger_event_def
      split: option.splits)

lemma drain_send_queue_fields:
  "transport (drain_send_queue t rs i q s) = transport s
   \<and> event_callback (drain_send_queue t rs i q s) = event_callback s
   \<and> auto_reconnect_enabled (drain_send_queue t rs i q s) = auto_reconnect_enabled s
   \<and> should_stop (drain_send_queue t rs i q s) = should_stop s
   \<and> reconnect_count (drain_send_queue t rs i q s) = reconnect_count s
   \<and> received_messages (drain_send_queue t rs i q s) = received_messages s
   \<and> send_queue (drain_send_queue t rs i q s) = send_queue s
   \<and> ping_timer (drain_send_queue t rs i q s) = ping_timer s"
  by (induction q arbitrary: i s) (simp_all add: send_queued_message_fields)


lemma enqueue_send_message_fields:
  "trace (snd (enqueue_send_message a ty d n s)) = trace s"
  "state (snd (enqueue_send_message a ty d n s)) = state s"
  "sent_messages (snd (enqueue_send_message a ty d n s)) = sent_messages s"
  "received_messages (snd (enqueue_send_message a ty d n s)) = received_messages s"
  "reconnect_count (snd (enqueue_send_message a ty d n s)) = reconnect_count s"
  "auto_reconnect_enabled (snd (enqueue_send_message a ty d n s)) = auto_reconnect_enabled s"
  "should_stop (snd (enqueue_send_message a ty d n s)) = should_stop s"
  "transport (snd (enqueue_send_message a ty d n s)) = transport s"
  "event_callback (snd (enqueue_send_message a ty d n s)) = event_callback s"
  by (simp_all add: enqueue_send_message_def Let_def split: option.splits)

lemma enqueue_calls_fields:
  "trace (snd (enqueue_calls calls s)) = trace s"
  "state (snd (enqueue_calls calls s)) = state s"
  "sent_messages (snd (enqueue_calls calls s)) = sent_messages s"
  "received_messages (snd (enqueue_calls calls s)) = received_messages s"
  "reconnect_count (snd (enqueue_calls calls s)) = reconnect_count s"
  "auto_reconnect_enabled (snd (enqueue_calls calls s)) = auto_reconnect_enabled s"
  "should_stop (snd (enqueue_calls calls s)) = should_stop s"
  "transport (snd (enqueue_calls calls s)) = transport s"
  "event_callback (snd (enqueue_calls calls s)) = event_callback s"
  by (subst enqueue_calls_other_fields, simp)+

lemma drain_send_queue_no_transport:
  "\<not> transport s \<Longrightarrow> drain_send_queue t rs i q s = s"
  by (induction q arbitrary: i) (simp_all add: send_queued_message_def)

lemma drain_send_queue_sent:
  "transport s \<Longrightarrow>
     sent_messages (drain_send_queue t rs i q s) = sent_messages s + of_nat (length (written rs i q))"
proof (induction q arbitrary: i s)
  case Nil
  show ?case by simp
next
  case (Cons m q)
  have tr: "transport (send_queued_message t (rs i) m s)"
    using Cons.prems by (simp add: send_queued_message_fields)
  have one: "sent_messages (send_queued_message t (rs i) m s) =
               sent_messages s + (if 0 \<le> rs i then 1 else 0)"
    using Cons.prems
    by (simp add: send_queued_message_def Let_def set_state_eq trigger_event_def
        split: option.splits)
  show ?case
    using Cons.IH [OF tr, of "Suc i"] one by simp
qed

lemma drain_send_queue_callbacks:
  "transport s \<Longrightarrow>
     callbacks_of (trace (drain_send_queue t rs i q s)) =
       callbacks_of (trace s) @
         (case event_callback s of
            None \<Rightarrow> []
          | Some cb \<Rightarrow> map message_sent_event
                         (filter (\<lambda>m. type m = MCP_WS_MSG_TYPE_TEXT) (written rs i q)))"
proof (induction q arbitrary: i s)
  case Nil
  show ?case by (simp split: option.splits)
next
  case (Cons m q)
  have tr: "transport (send_queued_message t (rs i) m s)"
    using Cons.prems by (simp add: send_queued_message_fields)
  have one: "callbacks_of (trace (send_queued_message t (rs i) m s)) =
               callbacks_of (trace s) @
                 (case event_callback s of
                    None \<Rightarrow> []
                  | Some cb \<Rightarrow> if 0 \<le> rs i \<and> type m = MCP_WS_MSG_TYPE_TEXT
                               then [message_sent_event m] else [])"
    using Cons.prems
    by (auto simp: send_queued_message_def Let_def set_state_eq trigger_event_def
        callbacks_of_append message_sent_event_def split: option.splits)
  show ?case
    using Cons.IH [OF tr, of "Suc i"] one
    by (simp add: send_queued_message_fields split: option.splits)
qed


lemma receive_frame_sent:
  "sent_messages (receive_frame e s) = sent_messages s"
  by (simp add: receive_frame_def Let_def set_state_eq trigger_event_def
      enqueue_send_message_fields split: ws_transport_opcodes.splits option.splits)

lemma receive_frame_message_sent:
  "filter is_message_sent (callbacks_of (trace (receive_frame e s))) =
     filter is_message_sent (callbacks_of (trace s))"
  by (simp add: receive_frame_def Let_def set_state_eq trigger_event_def callbacks_of_append
      enqueue_send_message_fields is_message_sent_def
      split: ws_transport_opcodes.splits option.splits)


lemma filter_message_sent_events:
  "filter is_message_sent (map message_sent_event ms) = map message_sent_event ms"
  by (induction ms) (simp_all add: is_message_sent_def message_sent_event_def)

lemma receive_frame_fields:
  "auto_reconnect_enabled (receive_frame e s) = auto_reconnect_enabled s"
  "should_stop (receive_frame e s) = should_stop s"
  "reconnect_count (receive_frame e s) = reconnect_count s"
  "transport (receive_frame e s) = transport s"
  "event_callback (receive_frame e s) = event_callback s"
  by (simp_all add: receive_frame_def Let_def set_state_eq trigger_event_def
      enqueue_send_message_fields split: ws_transport_opcodes.splits option.splits)

lemma receive_frame_close:
  "transport s \<Longrightarrow> 0 < read_len e \<Longrightarrow> read_opcode e = WS_TRANSPORT_OPCODES_CLOSE \<Longrightarrow>
     state (receive_frame e s) = MCP_WS_STATE_DISCONNECTED"
  by (simp add: receive_frame_def Let_def set_state_eq)

lemma disconnected_step_outcome:
  "state (disconnected_step e s) =
     (if auto_reconnect_enabled s \<and> \<not> should_stop s
      then MCP_WS_STATE_RECONNECTING else MCP_WS_STATE_IDLE)"
  "reconnect_count (disconnected_step e s) =
     (if auto_reconnect_enabled s \<and> \<not> should_stop s
      then reconnect_count s + 1 else reconnect_count s)"
  "should_stop (disconnected_step e s) = should_stop s"
  by (simp_all add: disconnected_step_def cleanup_transport_def trigger_event_def set_state_eq
      Let_def split: option.splits)

lemma connected_step:
  "state s = MCP_WS_STATE_CONNECTED \<Longrightarrow> send_queue s = Some q \<Longrightarrow>
     websocket_main_task_step e s =
       Some (vTaskDelay_ms 10
              (receive_frame e
                (snd (enqueue_calls (producers e)
                       (drain_send_queue (clock_us e) (send_raw_result e) 0 q
                          (s\<lparr>send_queue := Some []\<rparr>))))))"
  by (simp add: websocket_main_task_step_def Let_def)

lemma enqueue_send_message_queue:
  "send_queue (snd (enqueue_send_message a ty d n s)) =
     (case send_queue s of
        None \<Rightarrow> None
      | Some q \<Rightarrow>
          Some (if a = MSG_ALLOC_OK \<and> length q < MCP_WS_SEND_QUEUE_SIZE
                then q @ [message_of (a, ty, d, n)]
                else if a = DATA_ALLOC_FAILS \<and> (d = None \<or> n = 0) \<and> length q < MCP_WS_SEND_QUEUE_SIZE
                then q @ [message_of (a, ty, d, n)]
                else q))"
  by (cases a) (auto simp: enqueue_send_message_def Let_def message_of_def split: option.splits)

lemma enqueue_calls_queue_cong:
  "send_queue s = send_queue s' \<Longrightarrow>
     send_queue (snd (enqueue_calls calls s)) = send_queue (snd (enqueue_calls calls s'))"
proof (induction calls arbitrary: s s')
  case Nil
  then show ?case by simp
next
  case (Cons c calls)
  show ?case
    unfolding snd_enqueue_calls_Cons
    by (rule Cons.IH) (simp add: enqueue_send_message_queue Cons.prems)
qed

lemma enqueue_calls_queue_Some:
  "send_queue s = Some q \<Longrightarrow> \<exists>q'. send_queue (snd (enqueue_calls calls s)) = Some q'"
proof (induction calls arbitrary: s q)
  case Nil
  then show ?case by simp
next
  case (Cons c calls)
  have "\<exists>q1. send_queue (snd (enqueue_send_message (fst c) (fst (snd c)) (fst (snd (snd c)))
                 (snd (snd (snd c))) s)) = Some q1"
    by (simp add: enqueue_send_message_queue Cons.prems)
  then show ?case
    unfolding snd_enqueue_calls_Cons using Cons.IH by blast
qed

lemma replicate_numeral:
  "replicate (numeral k) x = x # replicate (pred_numeral k) x"
  by (simp add: numeral_eq_Suc)

lemma step_idle:
  "state s = MCP_WS_STATE_IDLE \<Longrightarrow> websocket_main_task_step e s = Some (vTaskDelay_ms 100 s)"
  by (simp add: websocket_main_task_step_def)

lemma step_initializing:
  "state s = MCP_WS_STATE_INITIALIZING \<Longrightarrow>
     websocket_main_task_step e s =
       Some (set_state (clock_us e)
               (if fst (create_transport_list (transport_init_result e) s) = ESP_OK
                then MCP_WS_STATE_CONNECTING else MCP_WS_STATE_ERROR)
               (snd (create_transport_list (transport_init_result e) s)))"
  by (simp add: websocket_main_task_step_def case_prod_beta)

lemma step_connecting:
  "state s = MCP_WS_STATE_CONNECTING \<Longrightarrow> websocket_main_task_step e s = Some (connecting_step e s)"
  by (simp add: websocket_main_task_step_def)

lemma step_disconnecting:
  "state s = MCP_WS_STATE_DISCONNECTING \<Longrightarrow>
     websocket_main_task_step e s = Some (set_state (clock_us e) MCP_WS_STATE_ERROR s)"
  by (simp add: websocket_main_task_step_def)

lemma step_disconnected:
  "state s = MCP_WS_STATE_DISCONNECTED \<Longrightarrow>
     websocket_main_task_step e s = Some (disconnected_step e s)"
  by (simp add: websocket_main_task_step_def)

lemma step_reconnecting:
  "state s = MCP_WS_STATE_RECONNECTING \<Longrightarrow>
     websocket_main_task_step e s =
       map_option (\<lambda>delay_ms. set_state (clock_us e) MCP_WS_STATE_INITIALIZING (vTaskDelay_ms delay_ms s))
         (reconnect_backoff_ms (reconnect_delay_ms (config s)) (reconnect_count s))"
  by (simp add: websocket_main_task_step_def split: option.splits)

lemma step_error:
  "state s = MCP_WS_STATE_ERROR \<Longrightarrow>
     websocket_main_task_step e s =
       Some (vTaskDelay_ms 1000
              (trigger_event MCP_WS_EVENT_ERROR None 0 ESP_FAIL (cleanup_transport s)))"
  by (simp add: websocket_main_task_step_def)

lemma cleanup_transport_counters:
  "sent_messages (cleanup_transport s) = sent_messages s"
  "received_messages (cleanup_transport s) = received_messages s"
  "reconnect_count (cleanup_transport s) = reconnect_count s"
  by (simp_all add: cleanup_transport_def Let_def split: option.splits)

lemma create_transport_list_counters:
  "sent_messages (snd (create_transport_list i s)) = sent_messages s"
  "received_messages (snd (create_transport_list i s)) = received_messages s"
  "reconnect_count (snd (create_transport_list i s)) = reconnect_count s"
  by (simp_all add: create_transport_list_def Let_def cleanup_transport_counters)

lemma trigger_event_counters:
  "sent_messages (trigger_event ty d n err s) = sent_messages s"
  "received_messages (trigger_event ty d n err s) = received_messages s"
  "reconnect_count (trigger_event ty d n err s) = reconnect_count s"
  by (simp_all add: trigger_event_def split: option.splits)


lemma word32_le_plus_of_nat:
  fixes a :: "32 word"
  assumes "unat a + k < 2 ^ 32"
  shows "a \<le> a + of_nat k"
proof -
  have k: "k < 2 ^ 32" using assms by simp
  have "unat (of_nat k :: 32 word) = k"
    using k by (simp add: unat_of_nat)
  then have "unat (a + of_nat k) = unat a + k"
    using assms by (simp add: unat_word_ariths)
  then show ?thesis
    by (simp add: word_le_nat_alt)
qed

lemma length_written: "length (written rs i q) \<le> length q"
  by (induction q arbitrary: i) (simp_all add: le_SucI)

lemma receive_frame_received:
  "received_messages (receive_frame e s) = received_messages s
   \<or> received_messages (receive_frame e s) = received_messages s + 1"
  by (simp add: receive_frame_def Let_def set_state_eq trigger_event_def
      enqueue_send_message_fields split: ws_transport_opcodes.splits option.splits)

lemma connected_step_counters:
  assumes "state s = MCP_WS_STATE_CONNECTED"
    and "websocket_main_task_step e s = Some s'"
  shows "(\<exists>k\<le>queue_length s. sent_messages s' = sent_messages s + of_nat k)
       \<and> (received_messages s' = received_messages s \<or> received_messages s' = received_messages s + 1)
       \<and> reconnect_count s' = reconnect_count s"
proof -
  obtain q where q: "send_queue s = Some q"
    using assms by (cases "send_queue s") (simp_all add: websocket_main_task_step_def)
  let ?s0 = "s\<lparr>send_queue := Some []\<rparr>"
  let ?d = "drain_send_queue (clock_us e) (send_raw_result e) 0 q ?s0"
  let ?p = "snd (enqueue_calls (producers e) ?d)"
  have s': "s' = vTaskDelay_ms 10 (receive_frame e ?p)"
    using connected_step [OF assms(1) q, of e] assms(2) by simp
  have fields: "received_messages ?d = received_messages s" "reconnect_count ?d = reconnect_count s"
    using drain_send_queue_fields [of "clock_us e" "send_raw_result e" 0 q ?s0] by simp_all
  have sent_d: "\<exists>k\<le>length q. sent_messages ?d = sent_messages s + of_nat k"
  proof (cases "transport s")
    case True
    then have "sent_messages ?d = sent_messages s + of_nat (length (written (send_raw_result e) 0 q))"
      using drain_send_queue_sent [of ?s0 "clock_us e" "send_raw_result e" 0 q] by simp
    then show ?thesis using length_written by blast
  next
    case False
    then have "?d = ?s0" by (simp add: drain_send_queue_no_transport)
    then have "sent_messages ?d = sent_messages s + of_nat 0" by simp
    then show ?thesis by blast
  qed
  have sent: "\<exists>k\<le>queue_length s. sent_messages s' = sent_messages s + of_nat k"
    using sent_d
    by (simp add: s' vTaskDelay_ms_def receive_frame_sent enqueue_calls_fields queue_length_def q)
  have rcv: "received_messages s' = received_messages s \<or> received_messages s' = received_messages s + 1"
    using receive_frame_received [of e ?p]
    by (simp add: s' vTaskDelay_ms_def enqueue_calls_fields fields)
  have rc: "reconnect_count s' = reconnect_count s"
    by (simp add: s' vTaskDelay_ms_def receive_frame_fields enqueue_calls_fields fields)
  show ?thesis using sent rcv rc by blast
qed

lemma connecting_step_counters:
  "sent_messages (connecting_step e s) = sent_messages s"
  "received_messages (connecting_step e s) = received_messages s"
  "reconnect_count (connecting_step e s) = reconnect_count s
   \<or> (state (connecting_step e s) = MCP_WS_STATE_CONNECTED \<and> reconnect_count (connecting_step e s) = 0)"
  by (simp_all add: connecting_step_def set_state_eq trigger_event_def Let_def
      split: option.splits)

lemma disconnected_step_counters:
  "sent_messages (disconnected_step e s) = sent_messages s"
  "received_messages (disconnected_step e s) = received_messages s"
  by (simp_all add: disconnected_step_def set_state_eq trigger_event_counters
      cleanup_transport_counters Let_def split: option.splits)

lemma other_step_counters:
  assumes "state s \<noteq> MCP_WS_STATE_CONNECTED"
    and "websocket_main_task_step e s = Some s'"
  shows "sent_messages s' = sent_messages s
       \<and> received_messages s' = received_messages s
       \<and> (reconnect_count s' = reconnect_count s
          \<or> (state s = MCP_WS_STATE_DISCONNECTED \<and> reconnect_count s' = reconnect_count s + 1)
          \<or> (state s = MCP_WS_STATE_CONNECTING \<and> state s' = MCP_WS_STATE_CONNECTED
              \<and> reconnect_count s' = 0))"
proof (cases "state s")
  case MCP_WS_STATE_IDLE
  have "s' = vTaskDelay_ms 100 s"
    using step_idle [OF MCP_WS_STATE_IDLE, of e] assms(2) by simp
  then show ?thesis by (simp add: vTaskDelay_ms_def)
next
  case MCP_WS_STATE_INITIALIZING
  have "s' = set_state (clock_us e)
               (if fst (create_transport_list (transport_init_result e) s) = ESP_OK
                then MCP_WS_STATE_CONNECTING else MCP_WS_STATE_ERROR)
               (snd (create_transport_list (transport_init_result e) s))"
    using step_initializing [OF MCP_WS_STATE_INITIALIZING, of e] assms(2) by simp
  then show ?thesis by (simp add: set_state_eq create_transport_list_counters)
next
  case MCP_WS_STATE_CONNECTING
  have "s' = connecting_step e s"
    using step_connecting [OF MCP_WS_STATE_CONNECTING, of e] assms(2) by simp
  then show ?thesis
    using connecting_step_counters [of e s] MCP_WS_STATE_CONNECTING by auto
next
  case MCP_WS_STATE_CONNECTED
  then show ?thesis using assms(1) by simp
next
  case MCP_WS_STATE_DISCONNECTING
  have "s' = set_state (clock_us e) MCP_WS_STATE_ERROR s"
    using step_disconnecting [OF MCP_WS_STATE_DISCONNECTING, of e] assms(2) by simp
  then show ?thesis by (simp add: set_state_eq)
next
  case MCP_WS_STATE_DISCONNECTED
  have "s' = disconnected_step e s"
    using step_disconnected [OF MCP_WS_STATE_DISCONNECTED, of e] assms(2) by simp
  then show ?thesis
    using MCP_WS_STATE_DISCONNECTED
    by (simp add: disconnected_step_counters disconnected_step_outcome)
next
  case MCP_WS_STATE_RECONNECTING
  have "map_option
          (\<lambda>delay_ms. set_state (clock_us e) MCP_WS_STATE_INITIALIZING (vTaskDelay_ms delay_ms s))
          (reconnect_backoff_ms (reconnect_delay_ms (config s)) (reconnect_count s)) = Some s'"
    unfolding step_reconnecting [OF MCP_WS_STATE_RECONNECTING, symmetric] by (rule assms(2))
  then obtain d where "s' = set_state (clock_us e) MCP_WS_STATE_INITIALIZING (vTaskDelay_ms d s)"
    by (auto simp: map_option_eq_Some)
  then show ?thesis by (simp add: set_state_eq vTaskDelay_ms_def)
next
  case MCP_WS_STATE_ERROR
  have "s' = vTaskDelay_ms 1000
              (trigger_event MCP_WS_EVENT_ERROR None 0 ESP_FAIL (cleanup_transport s))"
    using step_error [OF MCP_WS_STATE_ERROR, of e] assms(2) by simp
  then show ?thesis
    by (simp add: vTaskDelay_ms_def trigger_event_counters cleanup_transport_counters)
qed



lemma enqueue_send_message_bounded:
  "queue_length s \<le> MCP_WS_SEND_QUEUE_SIZE \<Longrightarrow>
     queue_length (snd (enqueue_send_message a ty d n s)) \<le> MCP_WS_SEND_QUEUE_SIZE"
  by (cases "send_queue s")
    (auto simp: queue_length_def enqueue_send_message_queue)

lemma enqueue_calls_bounded:
  "queue_length s \<le> MCP_WS_SEND_QUEUE_SIZE \<Longrightarrow>
     queue_length (snd (enqueue_calls calls s)) \<le> MCP_WS_SEND_QUEUE_SIZE"
proof (induction calls arbitrary: s)
  case Nil
  then show ?case by simp
next
  case (Cons c calls)
  show ?case
    unfolding snd_enqueue_calls_Cons
    by (rule Cons.IH) (rule enqueue_send_message_bounded [OF Cons.prems])
qed

lemma receive_frame_bounded:
  "queue_length s \<le> MCP_WS_SEND_QUEUE_SIZE \<Longrightarrow>
     queue_length (receive_frame e s) \<le> MCP_WS_SEND_QUEUE_SIZE"
  using enqueue_send_message_bounded
    [of s "pong_alloc e" MCP_WS_MSG_TYPE_PONG "Some (recv_buffer e)" "nat (read_len e)"]
  by (simp add: receive_frame_def Let_def set_state_eq trigger_event_def queue_length_def
      split: ws_transport_opcodes.splits option.splits)

lemma connecting_step_queue: "send_queue (connecting_step e s) = send_queue s"
  by (simp add: connecting_step_def set_state_eq trigger_event_def Let_def split: option.splits)

lemma cleanup_transport_queue:
  "send_queue (cleanup_transport s) = map_option (\<lambda>q. []) (send_queue s)"
  by (simp add: cleanup_transport_def Let_def split: option.splits)

lemma trigger_event_queue: "send_queue (trigger_event ty d n err s) = send_queue s"
  by (simp add: trigger_event_def split: option.splits)

lemma disconnected_step_queue:
  "send_queue (disconnected_step e s) = map_option (\<lambda>q. []) (send_queue s)"
  by (simp add: disconnected_step_def set_state_eq trigger_event_queue cleanup_transport_queue
      Let_def split: option.splits)

lemma create_transport_list_queue:
  "send_queue (snd (create_transport_list i s)) = map_option (\<lambda>q. []) (send_queue s)"
  by (simp add: create_transport_list_def Let_def cleanup_transport_queue)

lemma queue_length_emptied:
  "send_queue s' = map_option (\<lambda>q. []) (send_queue s) \<Longrightarrow> queue_length s' = 0"
  by (cases "send_queue s") (simp_all add: queue_length_def)

lemma queue_length_same:
  "send_queue s' = send_queue s \<Longrightarrow> queue_length s' = queue_length s"
  by (simp add: queue_length_def)

lemma send_queued_message_initialized:
  "initialized (send_queued_message t r m s) = initialized s"
  by (simp add: send_queued_message_def Let_def set_state_eq trigger_event_def
      split: option.splits)

lemma drain_send_queue_initialized:
  "initialized (drain_send_queue t rs i q s) = initialized s"
  by (induction q arbitrary: i s) (simp_all add: send_queued_message_initialized)

lemma enqueue_calls_initialized:
  "initialized (snd (enqueue_calls calls s)) = initialized s"
  by (subst enqueue_calls_other_fields) simp

lemma receive_frame_close_eq:
  "transport s \<Longrightarrow> 0 < read_len e \<Longrightarrow> read_opcode e = WS_TRANSPORT_OPCODES_CLOSE \<Longrightarrow>
     receive_frame e s = set_state (clock_us e) MCP_WS_STATE_DISCONNECTED s"
  by (simp add: receive_frame_def Let_def)

lemma stop_request_when_disconnected:
  assumes "initialized s" and "state s = MCP_WS_STATE_DISCONNECTED"
  shows "should_stop (mcp_websocket_stop_request a t s)"
    and "state (mcp_websocket_stop_request a t s) = MCP_WS_STATE_DISCONNECTED"
    and "send_queue (mcp_websocket_stop_request a t s) = send_queue s"
    and "reconnect_count (mcp_websocket_stop_request a t s) = reconnect_count s"
  using assms
  by (simp_all add: mcp_websocket_stop_request_def Let_def set_state_eq split: option.splits)

subsection \<open>The sections of \<^verbatim>\<open>parse_url\<close> on a well-formed URL\<close>

lemma c_str_no_nul: "CHR 0x00 \<notin> set s \<Longrightarrow> c_str s = s"
  by (simp add: c_str_def takeWhile_eq_all_conv) metis

lemma strlcpy_fits: "CHR 0x00 \<notin> set s \<Longrightarrow> length s < n \<Longrightarrow> strlcpy s n = s"
  by (simp add: strlcpy_def c_str_no_nul)

lemma strchr_absent: "c \<notin> set s \<Longrightarrow> strchr s c = None"
proof -
  assume "c \<notin> set s"
  then have "\<forall>x\<in>set s. x \<noteq> c" by auto
  then have "dropWhile (\<lambda>x. x \<noteq> c) s = []"
    by (simp add: dropWhile_eq_Nil_conv)
  then show ?thesis
    unfolding strchr_def by (simp only: list.case)
qed

lemma strchr_first: "c \<notin> set xs \<Longrightarrow> strchr (xs @ c # ys) c = Some (c # ys)"
proof -
  assume "c \<notin> set xs"
  then have "dropWhile (\<lambda>x. x \<noteq> c) (xs @ c # ys) = dropWhile (\<lambda>x. x \<noteq> c) (c # ys)"
    by (intro dropWhile_append2) metis
  then show ?thesis by (simp add: strchr_def)
qed

lemma parse_url_port_plain:
  "CHR '':'' \<notin> set h \<Longrightarrow>
     parse_url_port h p s = (ESP_OK, s\<lparr>host := Some h, path := Some p\<rparr>)"
  by (simp add: parse_url_port_def strchr_absent)

lemma parse_url_port_explicit:
  "CHR '':'' \<notin> set h \<Longrightarrow>
     parse_url_port (h @ CHR '':'' # pt) p s =
       (if 0 < atoi pt \<and> atoi pt \<le> 65535
        then (ESP_OK, s\<lparr>host := Some h, port := atoi pt, path := Some p\<rparr>)
        else (ESP_ERR_INVALID_ARG, s))"
  by (simp add: parse_url_port_def strchr_first Let_def)

lemma parse_url_wss:
  assumes "CHR 0x00 \<notin> set w" and "length (''wss://'' @ w) < MCP_WS_MAX_URL_LEN"
  shows "parse_url URL_ALLOC_OK (''wss://'' @ w) s =
           parse_url_host w (s\<lparr>use_ssl := True, port := 443, host := None, path := None\<rparr>)"
proof -
  have "strlcpy (''wss://'' @ w) MCP_WS_MAX_URL_LEN = ''wss://'' @ w"
    using assms by (intro strlcpy_fits) auto
  then show ?thesis
    by (simp add: parse_url_def Let_def)
qed

lemma parse_url_ws:
  assumes "CHR 0x00 \<notin> set w" and "length (''ws://'' @ w) < MCP_WS_MAX_URL_LEN"
  shows "parse_url URL_ALLOC_OK (''ws://'' @ w) s =
           parse_url_host w (s\<lparr>use_ssl := False, port := 80, host := None, path := None\<rparr>)"
proof -
  have "strlcpy (''ws://'' @ w) MCP_WS_MAX_URL_LEN = ''ws://'' @ w"
    using assms by (intro strlcpy_fits) auto
  then show ?thesis
    by (simp add: parse_url_def Let_def)
qed

lemma parse_url_host_with_path:
  assumes "CHR ''/'' \<notin> set hp" and "CHR 0x00 \<notin> set p" and "length (CHR ''/'' # p) < MCP_WS_MAX_PATH_LEN"
  shows "parse_url_host (hp @ CHR ''/'' # p) s =
           (if hp \<noteq> [] \<and> length hp < MCP_WS_MAX_HOST_LEN
            then parse_url_port hp (CHR ''/'' # p) s
            else (ESP_ERR_INVALID_ARG, s))"
proof -
  have "strlcpy (CHR ''/'' # p) MCP_WS_MAX_PATH_LEN = CHR ''/'' # p"
    using assms(2,3) by (intro strlcpy_fits) auto
  then show ?thesis
    using assms(1) by (simp add: parse_url_host_def strchr_first Let_def)
qed

lemma parse_url_host_no_path:
  assumes "CHR ''/'' \<notin> set hp" and "CHR 0x00 \<notin> set hp" and "length hp < MCP_WS_MAX_HOST_LEN"
  shows "parse_url_host hp s = parse_url_port hp ''/mcp/'' s"
  using assms by (simp add: parse_url_host_def strchr_absent strlcpy_fits)

lemma parse_url_host_split:
  assumes "hp \<noteq> []"
    and "length hp < MCP_WS_MAX_HOST_LEN"
    and "CHR ''/'' \<notin> set hp"
    and "CHR 0x00 \<notin> set hp"
    and "p = [] \<or> hd p = CHR ''/''"
    and "CHR 0x00 \<notin> set p"
    and "length p < MCP_WS_MAX_PATH_LEN"
  shows "parse_url_host (hp @ p) s = parse_url_port hp (if p = [] then ''/mcp/'' else p) s"
proof (cases p)
  case Nil
  then show ?thesis
    using assms(2,3,4) by (simp add: parse_url_host_no_path)
next
  case (Cons c p')
  then have c: "c = CHR ''/''" using assms(5) by simp
  have nul: "CHR 0x00 \<notin> set p'" using assms(6) Cons by simp
  have len: "length (CHR ''/'' # p') < MCP_WS_MAX_PATH_LEN" using assms(7) Cons by simp
  show ?thesis
    using parse_url_host_with_path [OF assms(3) nul len, of s] assms(1,2)
    by (simp add: Cons c)
qed

lemma parse_url_scheme:
  assumes "scheme = ''ws://'' \<or> scheme = ''wss://''"
    and "CHR 0x00 \<notin> set w"
    and "length (scheme @ w) < MCP_WS_MAX_URL_LEN"
  shows "parse_url URL_ALLOC_OK (scheme @ w) s =
           parse_url_host w
             (s\<lparr>use_ssl := (scheme = ''wss://''), port := (if scheme = ''wss://'' then 443 else 80),
                host := None, path := None\<rparr>)"
  using assms(1)
proof
  assume ws: "scheme = ''ws://''"
  have "length (''ws://'' @ w) < MCP_WS_MAX_URL_LEN" using assms(3) ws by simp
  then show ?thesis
    using parse_url_ws [OF assms(2), of s] by (simp add: ws)
next
  assume wss: "scheme = ''wss://''"
  have "length (''wss://'' @ w) < MCP_WS_MAX_URL_LEN" using assms(3) wss by simp
  then show ?thesis
    using parse_url_wss [OF assms(2), of s] by (simp add: wss)
qed

lemma parse_url_no_scheme:
  assumes "CHR 0x00 \<notin> set url"
    and "length url < MCP_WS_MAX_URL_LEN"
    and "take 6 url \<noteq> ''wss://''"
    and "take 5 url \<noteq> ''ws://''"
  shows "parse_url URL_ALLOC_OK url s = (ESP_ERR_INVALID_ARG, s)"
  using assms by (simp add: parse_url_def strlcpy_fits Let_def)

lemma atoi_8080: "atoi ''8080'' = 8080"
  by (simp add: atoi_def isspace_def isdigit_def Let_def)

lemma atoi_80abc: "atoi ''80abc'' = 80"
  by (simp add: atoi_def isspace_def isdigit_def Let_def)

lemma atoi_70000: "atoi ''70000'' = 70000"
  by (simp add: atoi_def isspace_def isdigit_def Let_def)

lemma atoi_abc: "atoi ''abc'' = 0"
  by (simp add: atoi_def isspace_def isdigit_def Let_def)

lemma strtol_digits_decimal:
  "\<forall>c\<in>set ds. isdigit c \<Longrightarrow>
     strtol_digits (int n) ds = int (foldl (\<lambda>acc c. acc * 10 + (of_char c - 48)) n ds)"
proof (induction ds arbitrary: n)
  case Nil
  show ?case by simp
next
  case (Cons c ds)
  have d: "isdigit c" and rest: "\<forall>c\<in>set ds. isdigit c" using Cons.prems by simp_all
  have ge: "48 \<le> (of_char c :: nat)" using d by (simp add: isdigit_def)
  have "(of_char c :: int) = int (of_char c)" by (rule of_nat_of_char [symmetric])
  then have "int n * 10 + (of_char c - 48) = int (n * 10 + (of_char c - 48))"
    using ge by simp
  then show ?case
    using Cons.IH [OF rest, of "n * 10 + (of_char c - 48)"] d by simp
qed

lemma atoi_digits:
  assumes "\<forall>c\<in>set ds. isdigit c" and "decimal ds < 2 ^ 31"
  shows "atoi ds = int (decimal ds)"
proof -
  have v: "strtol_digits 0 ds = int (decimal ds)"
    using strtol_digits_decimal [OF assms(1), of 0] by (simp add: decimal_def)
  have "int (decimal ds) < int (2 ^ 31)"
    using assms(2) by (rule iffD2 [OF of_nat_less_iff])
  then have bound: "int (decimal ds) \<le> 2 ^ 31 - 1" by simp
  show ?thesis
  proof (cases ds)
    case Nil
    then show ?thesis by (simp add: atoi_def decimal_def)
  next
    case (Cons c r)
    have d: "isdigit c" using assms(1) Cons by simp
    then have nsp: "\<not> isspace c" and nm: "c \<noteq> CHR ''-''" and np: "c \<noteq> CHR ''+''"
      by (auto simp: isdigit_def isspace_def)
    have "dropWhile isspace ds = ds" using Cons nsp by simp
    then show ?thesis
      using v bound Cons nm np by (simp add: atoi_def Let_def)
  qed
qed


lemma isdigit_not_separator:
  "isdigit c \<Longrightarrow> c \<noteq> CHR ''/'' \<and> c \<noteq> CHR '':'' \<and> c \<noteq> CHR 0x00"
  by (auto simp: isdigit_def)

lemma parse_url_host_truncated:
  assumes "CHR ''/'' \<notin> set w" and "CHR 0x00 \<notin> set w"
  shows "parse_url_host w s = parse_url_port (take (MCP_WS_MAX_HOST_LEN - 1) w) ''/mcp/'' s"
  using assms by (simp add: parse_url_host_def strchr_absent strlcpy_def c_str_no_nul)

lemma decimal_8080: "decimal ''8080'' = 8080"
  by (simp add: decimal_def)

lemma atoi_7000: "atoi ''7000'' = 7000"
  by (simp add: atoi_def isspace_def isdigit_def Let_def)

subsection \<open>Parsing the endpoint\<close>

text \<open>
  C4, as the claim states it, fails: a well-formed URL is rejected when the text between
  the scheme and the path is 256 bytes or longer, the size of the host buffer. Here a
  host of 250 bytes with the port 65535 and a path gives \<^verbatim>\<open>ESP_ERR_INVALID_ARG\<close>.
\<close>

theorem parse_url_long_host_with_port:
  "fst (parse_url URL_ALLOC_OK (''ws://'' @ replicate 250 (CHR ''a'') @ '':65535/x'') g_ws_client_zero) =
     ESP_ERR_INVALID_ARG"
proof -
  let ?s1 = "g_ws_client_zero\<lparr>use_ssl := False, port := 80, host := None, path := None\<rparr>"
  let ?hp = "replicate 250 (CHR ''a'') @ '':65535''"
  have "parse_url URL_ALLOC_OK (''ws://'' @ (?hp @ CHR ''/'' # ''x'')) g_ws_client_zero =
          parse_url_host (?hp @ CHR ''/'' # ''x'') ?s1"
    by (rule parse_url_ws) (simp_all add: MCP_WS_MAX_URL_LEN_def)
  also have "\<dots> = (ESP_ERR_INVALID_ARG, ?s1)"
    using parse_url_host_with_path [of ?hp "''x''" ?s1]
    by (simp add: MCP_WS_MAX_HOST_LEN_def MCP_WS_MAX_PATH_LEN_def)
  finally show ?thesis by simp
qed

text \<open>
  C4, amended. A URL made of the scheme \<^verbatim>\<open>ws://\<close> or \<^verbatim>\<open>wss://\<close>, a non-empty host
  without \<^verbatim>\<open>/\<close> and \<^verbatim>\<open>:\<close>, optionally a colon and a port written in decimal
  digits with a value from 1 to 65535, and then either nothing or a path that starts
  with \<^verbatim>\<open>/\<close>, in which host and port text together are shorter than 256 bytes (and
  the whole is shorter than 512 bytes, the size of the endpoint buffer), parses: the
  result is \<^verbatim>\<open>ESP_OK\<close>, the port is 80 for \<^verbatim>\<open>ws\<close> and 443 for \<^verbatim>\<open>wss\<close> when none is
  given and the given port otherwise, the host is the host, and the path is everything
  from the first \<^verbatim>\<open>/\<close> behind the scheme to the end of the string, query included,
  or \<^verbatim>\<open>/mcp/\<close> when there is no \<^verbatim>\<open>/\<close>. In particular
  \<^verbatim>\<open>wss://example.com/mcp/?token=abc\<close> gives host \<^verbatim>\<open>example.com\<close>, port 443 and path
  \<^verbatim>\<open>/mcp/?token=abc\<close>.
\<close>

theorem parse_url_valid:
  assumes "scheme = ''ws://'' \<or> scheme = ''wss://''"
    and "h \<noteq> []"
    and "\<forall>c\<in>set h. c \<noteq> CHR ''/'' \<and> c \<noteq> CHR '':'' \<and> c \<noteq> CHR 0x00"
    and "case pt of
           None \<Rightarrow> True
         | Some ds \<Rightarrow> (\<forall>c\<in>set ds. isdigit c) \<and> 0 < decimal ds \<and> decimal ds \<le> 65535"
    and "length (h @ port_suffix pt) < MCP_WS_MAX_HOST_LEN"
    and "p = [] \<or> hd p = CHR ''/''"
    and "CHR 0x00 \<notin> set p"
    and "length (scheme @ h @ port_suffix pt @ p) < MCP_WS_MAX_URL_LEN"
  shows "parse_url URL_ALLOC_OK (scheme @ h @ port_suffix pt @ p) s =
           (ESP_OK,
            s\<lparr>use_ssl := (scheme = ''wss://''),
              port := (case pt of
                         None \<Rightarrow> if scheme = ''wss://'' then 443 else 80
                       | Some ds \<Rightarrow> int (decimal ds)),
              host := Some h,
              path := Some (if p = [] then ''/mcp/'' else p)\<rparr>)"
proof -
  let ?s1 = "s\<lparr>use_ssl := (scheme = ''wss://''), port := (if scheme = ''wss://'' then 443 else 80),
                host := None, path := None\<rparr>"
  let ?path = "if p = [] then ''/mcp/'' else p"
  let ?hp = "h @ port_suffix pt"
  have h: "CHR ''/'' \<notin> set h" "CHR '':'' \<notin> set h" "CHR 0x00 \<notin> set h"
    using assms(3) by auto
  have sfx: "CHR ''/'' \<notin> set (port_suffix pt)" "CHR 0x00 \<notin> set (port_suffix pt)"
    using assms(4) isdigit_not_separator
    by (auto simp: port_suffix_def split: option.splits)
  have hp: "?hp \<noteq> []" "length ?hp < MCP_WS_MAX_HOST_LEN"
    "CHR ''/'' \<notin> set ?hp" "CHR 0x00 \<notin> set ?hp"
    using assms(2,5) h sfx by auto
  have len: "length (scheme @ ?hp @ p) < MCP_WS_MAX_URL_LEN" using assms(8) by simp
  have lenp: "length p < MCP_WS_MAX_PATH_LEN"
    using len by (simp add: MCP_WS_MAX_PATH_LEN_def MCP_WS_MAX_URL_LEN_def)
  have nul: "CHR 0x00 \<notin> set (?hp @ p)" using hp(4) assms(7) by simp
  have "parse_url URL_ALLOC_OK (scheme @ ?hp @ p) s = parse_url_host (?hp @ p) ?s1"
    by (rule parse_url_scheme [OF assms(1) nul len])
  also have "\<dots> = parse_url_port ?hp ?path ?s1"
    by (rule parse_url_host_split [OF hp assms(6,7) lenp])
  also have "\<dots> = (ESP_OK,
            ?s1\<lparr>host := Some h,
                 port := (case pt of
                            None \<Rightarrow> if scheme = ''wss://'' then 443 else 80
                          | Some ds \<Rightarrow> int (decimal ds)),
                 path := Some ?path\<rparr>)"
  proof (cases pt)
    case None
    then show ?thesis
      using parse_url_port_plain [OF h(2), of ?path ?s1] by (simp add: port_suffix_def)
  next
    case (Some ds)
    have d: "\<forall>c\<in>set ds. isdigit c" "0 < decimal ds" "decimal ds \<le> 65535"
      using assms(4) Some by simp_all
    have "decimal ds < 2 ^ 31" using d(3) by simp
    then have "atoi ds = int (decimal ds)" using d(1) by (intro atoi_digits)
    then show ?thesis
      using parse_url_port_explicit [OF h(2), of ds ?path ?s1] d(2,3) Some
      by (simp add: port_suffix_def)
  qed
  finally have "parse_url URL_ALLOC_OK (scheme @ ?hp @ p) s =
          (ESP_OK,
            ?s1\<lparr>host := Some h,
                 port := (case pt of
                            None \<Rightarrow> if scheme = ''wss://'' then 443 else 80
                          | Some ds \<Rightarrow> int (decimal ds)),
                 path := Some ?path\<rparr>)" .
  then show ?thesis by simp
qed

theorem parse_url_valid_witness:
  "parse_url URL_ALLOC_OK ''wss://example.com/mcp/?token=abc'' g_ws_client_zero =
     (ESP_OK, g_ws_client_zero\<lparr>use_ssl := True, port := 443, host := Some ''example.com'',
                               path := Some ''/mcp/?token=abc''\<rparr>)
   \<and> parse_url URL_ALLOC_OK ''ws://example.com'' g_ws_client_zero =
     (ESP_OK, g_ws_client_zero\<lparr>use_ssl := False, port := 80, host := Some ''example.com'',
                               path := Some ''/mcp/''\<rparr>)
   \<and> parse_url URL_ALLOC_OK ''wss://example.com:8080/mcp/?token=abc'' g_ws_client_zero =
     (ESP_OK, g_ws_client_zero\<lparr>use_ssl := True, port := 8080, host := Some ''example.com'',
                               path := Some ''/mcp/?token=abc''\<rparr>)"
  using parse_url_valid [of "''wss://''" "''example.com''" None "''/mcp/?token=abc''" g_ws_client_zero]
    parse_url_valid [of "''ws://''" "''example.com''" None "[]" g_ws_client_zero]
    parse_url_valid [of "''wss://''" "''example.com''" "Some ''8080''" "''/mcp/?token=abc''" g_ws_client_zero]
  by (simp add: MCP_WS_MAX_HOST_LEN_def MCP_WS_MAX_URL_LEN_def port_suffix_def decimal_8080
      isdigit_def)

text \<open>
  C5, as the claim states it, fails in both directions. The port is what \<^verbatim>\<open>atoi\<close>
  reads at the start of the text behind the colon, so \<^verbatim>\<open>:80abc\<close> is accepted as
  port 80 although it is not a number. A URL with a good scheme, a non-empty host and
  no port is rejected when a path follows a host of 256 bytes or more. And without a
  path the text behind the scheme is cut to 255 bytes before the port is read, so a
  host of 250 bytes with the port 70000 parses, as port 7000.
\<close>

theorem parse_url_not_as_claimed:
  "parse_url URL_ALLOC_OK ''ws://example.com:80abc/x'' g_ws_client_zero =
     (ESP_OK, g_ws_client_zero\<lparr>use_ssl := False, port := 80, host := Some ''example.com'',
                               path := Some ''/x''\<rparr>)
   \<and> fst (parse_url URL_ALLOC_OK (''ws://'' @ replicate 256 (CHR ''a'') @ ''/x'') g_ws_client_zero) =
       ESP_ERR_INVALID_ARG
   \<and> parse_url URL_ALLOC_OK (''ws://'' @ replicate 250 (CHR ''a'') @ '':70000'') g_ws_client_zero =
     (ESP_OK, g_ws_client_zero\<lparr>use_ssl := False, port := 7000,
                               host := Some (replicate 250 (CHR ''a'')),
                               path := Some ''/mcp/''\<rparr>)"
proof -
  let ?s1 = "g_ws_client_zero\<lparr>use_ssl := False, port := 80, host := None, path := None\<rparr>"
  have "parse_url URL_ALLOC_OK (''ws://'' @ (''example.com'' @ CHR '':'' # ''80abc'') @ ''/x'') g_ws_client_zero =
          parse_url_host ((''example.com'' @ CHR '':'' # ''80abc'') @ ''/x'') ?s1"
    by (rule parse_url_ws) (simp_all add: MCP_WS_MAX_URL_LEN_def)
  also have "\<dots> = parse_url_port (''example.com'' @ CHR '':'' # ''80abc'') ''/x'' ?s1"
    using parse_url_host_split [of "''example.com'' @ CHR '':'' # ''80abc''" "''/x''" ?s1]
    by (simp add: MCP_WS_MAX_HOST_LEN_def MCP_WS_MAX_PATH_LEN_def)
  also have "\<dots> = (ESP_OK, ?s1\<lparr>host := Some ''example.com'', port := 80, path := Some ''/x''\<rparr>)"
    using parse_url_port_explicit [of "''example.com''" "''80abc''" "''/x''" ?s1]
    by (simp add: atoi_80abc)
  finally have lenient: "parse_url URL_ALLOC_OK ''ws://example.com:80abc/x'' g_ws_client_zero =
     (ESP_OK, g_ws_client_zero\<lparr>use_ssl := False, port := 80, host := Some ''example.com'',
                               path := Some ''/x''\<rparr>)"
    by simp
  have "parse_url URL_ALLOC_OK (''ws://'' @ (replicate 256 (CHR ''a'') @ CHR ''/'' # ''x'')) g_ws_client_zero =
          parse_url_host (replicate 256 (CHR ''a'') @ CHR ''/'' # ''x'') ?s1"
    by (rule parse_url_ws) (simp_all add: MCP_WS_MAX_URL_LEN_def)
  also have "\<dots> = (ESP_ERR_INVALID_ARG, ?s1)"
    using parse_url_host_with_path [of "replicate 256 (CHR ''a'')" "''x''" ?s1]
    by (simp add: MCP_WS_MAX_HOST_LEN_def MCP_WS_MAX_PATH_LEN_def)
  finally have long: "fst (parse_url URL_ALLOC_OK (''ws://'' @ replicate 256 (CHR ''a'') @ ''/x'') g_ws_client_zero) =
       ESP_ERR_INVALID_ARG"
    by simp
  have "parse_url URL_ALLOC_OK (''ws://'' @ (replicate 250 (CHR ''a'') @ '':70000'')) g_ws_client_zero =
          parse_url_host (replicate 250 (CHR ''a'') @ '':70000'') ?s1"
    by (rule parse_url_ws) (simp_all add: MCP_WS_MAX_URL_LEN_def)
  also have "\<dots> = parse_url_port (take (MCP_WS_MAX_HOST_LEN - 1) (replicate 250 (CHR ''a'') @ '':70000''))
                      ''/mcp/'' ?s1"
    by (rule parse_url_host_truncated) simp_all
  also have "take (MCP_WS_MAX_HOST_LEN - 1) (replicate 250 (CHR ''a'') @ '':70000'') =
               replicate 250 (CHR ''a'') @ CHR '':'' # ''7000''"
    by (simp add: MCP_WS_MAX_HOST_LEN_def)
  also have "parse_url_port (replicate 250 (CHR ''a'') @ CHR '':'' # ''7000'') ''/mcp/'' ?s1 =
               (ESP_OK, ?s1\<lparr>host := Some (replicate 250 (CHR ''a'')), port := 7000,
                             path := Some ''/mcp/''\<rparr>)"
    using parse_url_port_explicit [of "replicate 250 (CHR ''a'')" "''7000''" "''/mcp/''" ?s1]
    by (simp add: atoi_7000)
  finally have cut: "parse_url URL_ALLOC_OK (''ws://'' @ replicate 250 (CHR ''a'') @ '':70000'') g_ws_client_zero =
     (ESP_OK, g_ws_client_zero\<lparr>use_ssl := False, port := 7000,
                               host := Some (replicate 250 (CHR ''a'')),
                               path := Some ''/mcp/''\<rparr>)"
    by simp
  show ?thesis using lenient long cut by simp
qed

text \<open>
  C5, amended. Parsing fails with \<^verbatim>\<open>ESP_ERR_INVALID_ARG\<close>
  \<^item> when the URL starts with neither \<^verbatim>\<open>ws://\<close> nor \<^verbatim>\<open>wss://\<close> (the struct is then
    left untouched);
  \<^item> when a path follows the scheme and the text between them is empty or 256 bytes
    or longer;
  \<^item> when a non-empty host is followed by \<^verbatim>\<open>:\<close>, the host, the colon and the text
    behind it up to the path or the end of the URL are together shorter than 256 bytes,
    and the number that \<^verbatim>\<open>atoi\<close> reads at the start of the text behind the first
    \<^verbatim>\<open>:\<close> is not in 1..65535; when that number is in 1..65535, parsing succeeds and
    the number replaces the port of the scheme.
  A URL with a good scheme, a host of 1 to 255 bytes and no \<^verbatim>\<open>:\<close> parses. Every
  clause is about URLs shorter than 512 bytes, the size of the endpoint buffer. (What
  the parser does with an empty host that no path follows or that a port follows, and
  with 256 bytes or more behind the scheme when no path follows, is not part of this
  statement.)
\<close>

theorem parse_url_invalid_arg:
  "(CHR 0x00 \<notin> set url \<and> length url < MCP_WS_MAX_URL_LEN
      \<and> take 6 url \<noteq> ''wss://'' \<and> take 5 url \<noteq> ''ws://''
     \<longrightarrow> parse_url URL_ALLOC_OK url s = (ESP_ERR_INVALID_ARG, s))
   \<and> ((scheme = ''ws://'' \<or> scheme = ''wss://'')
       \<and> CHR ''/'' \<notin> set hp \<and> CHR 0x00 \<notin> set hp \<and> CHR 0x00 \<notin> set p
       \<and> length (scheme @ hp @ CHR ''/'' # p) < MCP_WS_MAX_URL_LEN
       \<and> (hp = [] \<or> MCP_WS_MAX_HOST_LEN \<le> length hp)
     \<longrightarrow> fst (parse_url URL_ALLOC_OK (scheme @ hp @ CHR ''/'' # p) s) = ESP_ERR_INVALID_ARG)
   \<and> ((scheme = ''ws://'' \<or> scheme = ''wss://'')
       \<and> h \<noteq> [] \<and> (\<forall>c\<in>set h. c \<noteq> CHR ''/'' \<and> c \<noteq> CHR '':'' \<and> c \<noteq> CHR 0x00)
       \<and> (\<forall>c\<in>set pt. c \<noteq> CHR ''/'' \<and> c \<noteq> CHR 0x00)
       \<and> length (h @ CHR '':'' # pt) < MCP_WS_MAX_HOST_LEN
       \<and> (q = [] \<or> hd q = CHR ''/'') \<and> CHR 0x00 \<notin> set q
       \<and> length (scheme @ h @ CHR '':'' # pt @ q) < MCP_WS_MAX_URL_LEN
     \<longrightarrow> parse_url URL_ALLOC_OK (scheme @ h @ CHR '':'' # pt @ q) s =
           (if 0 < atoi pt \<and> atoi pt \<le> 65535
            then (ESP_OK,
                  s\<lparr>use_ssl := (scheme = ''wss://''), port := atoi pt, host := Some h,
                    path := Some (if q = [] then ''/mcp/'' else q)\<rparr>)
            else (ESP_ERR_INVALID_ARG,
                  s\<lparr>use_ssl := (scheme = ''wss://''),
                    port := (if scheme = ''wss://'' then 443 else 80),
                    host := None, path := None\<rparr>)))
   \<and> ((scheme = ''ws://'' \<or> scheme = ''wss://'')
       \<and> h \<noteq> [] \<and> (\<forall>c\<in>set h. c \<noteq> CHR ''/'' \<and> c \<noteq> CHR '':'' \<and> c \<noteq> CHR 0x00)
       \<and> length h < MCP_WS_MAX_HOST_LEN
       \<and> (q = [] \<or> hd q = CHR ''/'') \<and> CHR 0x00 \<notin> set q
       \<and> length (scheme @ h @ q) < MCP_WS_MAX_URL_LEN
     \<longrightarrow> fst (parse_url URL_ALLOC_OK (scheme @ h @ q) s) = ESP_OK)"
proof (intro conjI impI)
  assume "CHR 0x00 \<notin> set url \<and> length url < MCP_WS_MAX_URL_LEN
      \<and> take 6 url \<noteq> ''wss://'' \<and> take 5 url \<noteq> ''ws://''"
  then show "parse_url URL_ALLOC_OK url s = (ESP_ERR_INVALID_ARG, s)"
    by (simp add: parse_url_no_scheme)
next
  assume a: "(scheme = ''ws://'' \<or> scheme = ''wss://'')
       \<and> CHR ''/'' \<notin> set hp \<and> CHR 0x00 \<notin> set hp \<and> CHR 0x00 \<notin> set p
       \<and> length (scheme @ hp @ CHR ''/'' # p) < MCP_WS_MAX_URL_LEN
       \<and> (hp = [] \<or> MCP_WS_MAX_HOST_LEN \<le> length hp)"
  then have sch: "scheme = ''ws://'' \<or> scheme = ''wss://''" by simp
  have nul: "CHR 0x00 \<notin> set (hp @ CHR ''/'' # p)" using a by simp
  have len: "length (scheme @ hp @ CHR ''/'' # p) < MCP_WS_MAX_URL_LEN" using a by simp
  have slash: "CHR ''/'' \<notin> set hp" and nulp: "CHR 0x00 \<notin> set p" using a by simp_all
  have lenp: "length (CHR ''/'' # p) < MCP_WS_MAX_PATH_LEN"
    using len by (simp add: MCP_WS_MAX_PATH_LEN_def MCP_WS_MAX_URL_LEN_def)
  have bad: "\<not> (hp \<noteq> [] \<and> length hp < MCP_WS_MAX_HOST_LEN)" using a by auto
  show "fst (parse_url URL_ALLOC_OK (scheme @ hp @ CHR ''/'' # p) s) = ESP_ERR_INVALID_ARG"
    using bad
    by (auto simp: parse_url_scheme [OF sch nul len] parse_url_host_with_path [OF slash nulp lenp])
next
  assume a: "(scheme = ''ws://'' \<or> scheme = ''wss://'')
       \<and> h \<noteq> [] \<and> (\<forall>c\<in>set h. c \<noteq> CHR ''/'' \<and> c \<noteq> CHR '':'' \<and> c \<noteq> CHR 0x00)
       \<and> (\<forall>c\<in>set pt. c \<noteq> CHR ''/'' \<and> c \<noteq> CHR 0x00)
       \<and> length (h @ CHR '':'' # pt) < MCP_WS_MAX_HOST_LEN
       \<and> (q = [] \<or> hd q = CHR ''/'') \<and> CHR 0x00 \<notin> set q
       \<and> length (scheme @ h @ CHR '':'' # pt @ q) < MCP_WS_MAX_URL_LEN"
  then have sch: "scheme = ''ws://'' \<or> scheme = ''wss://''" by simp
  let ?hp = "h @ CHR '':'' # pt"
  have colon: "CHR '':'' \<notin> set h" using a by auto
  have hp: "?hp \<noteq> []" "length ?hp < MCP_WS_MAX_HOST_LEN"
    "CHR ''/'' \<notin> set ?hp" "CHR 0x00 \<notin> set ?hp"
    using a by auto
  have q: "q = [] \<or> hd q = CHR ''/''" "CHR 0x00 \<notin> set q" using a by simp_all
  have len: "length (scheme @ ?hp @ q) < MCP_WS_MAX_URL_LEN" using a by simp
  have lenq: "length q < MCP_WS_MAX_PATH_LEN"
    using len by (simp add: MCP_WS_MAX_PATH_LEN_def MCP_WS_MAX_URL_LEN_def)
  have nul: "CHR 0x00 \<notin> set (?hp @ q)" using hp(4) q(2) by simp
  let ?s1 = "s\<lparr>use_ssl := (scheme = ''wss://''), port := (if scheme = ''wss://'' then 443 else 80),
                host := None, path := None\<rparr>"
  let ?path = "if q = [] then ''/mcp/'' else q"
  have "parse_url URL_ALLOC_OK (scheme @ ?hp @ q) s = parse_url_host (?hp @ q) ?s1"
    by (rule parse_url_scheme [OF sch nul len])
  also have "\<dots> = parse_url_port ?hp ?path ?s1"
    by (rule parse_url_host_split [OF hp q lenq])
  also have "\<dots> = (if 0 < atoi pt \<and> atoi pt \<le> 65535
                    then (ESP_OK, ?s1\<lparr>host := Some h, port := atoi pt, path := Some ?path\<rparr>)
                    else (ESP_ERR_INVALID_ARG, ?s1))"
    by (rule parse_url_port_explicit [OF colon])
  finally have "parse_url URL_ALLOC_OK (scheme @ ?hp @ q) s =
                  (if 0 < atoi pt \<and> atoi pt \<le> 65535
                    then (ESP_OK, ?s1\<lparr>host := Some h, port := atoi pt, path := Some ?path\<rparr>)
                    else (ESP_ERR_INVALID_ARG, ?s1))" .
  then show "parse_url URL_ALLOC_OK (scheme @ h @ CHR '':'' # pt @ q) s =
           (if 0 < atoi pt \<and> atoi pt \<le> 65535
            then (ESP_OK,
                  s\<lparr>use_ssl := (scheme = ''wss://''), port := atoi pt, host := Some h,
                    path := Some (if q = [] then ''/mcp/'' else q)\<rparr>)
            else (ESP_ERR_INVALID_ARG,
                  s\<lparr>use_ssl := (scheme = ''wss://''),
                    port := (if scheme = ''wss://'' then 443 else 80),
                    host := None, path := None\<rparr>))"
    by simp
next
  assume a: "(scheme = ''ws://'' \<or> scheme = ''wss://'')
       \<and> h \<noteq> [] \<and> (\<forall>c\<in>set h. c \<noteq> CHR ''/'' \<and> c \<noteq> CHR '':'' \<and> c \<noteq> CHR 0x00)
       \<and> length h < MCP_WS_MAX_HOST_LEN
       \<and> (q = [] \<or> hd q = CHR ''/'') \<and> CHR 0x00 \<notin> set q
       \<and> length (scheme @ h @ q) < MCP_WS_MAX_URL_LEN"
  then have sch: "scheme = ''ws://'' \<or> scheme = ''wss://''" by simp
  have h: "h \<noteq> []" "length h < MCP_WS_MAX_HOST_LEN" "CHR ''/'' \<notin> set h" "CHR 0x00 \<notin> set h"
    using a by auto
  have colon: "CHR '':'' \<notin> set h" using a by auto
  have q: "q = [] \<or> hd q = CHR ''/''" "CHR 0x00 \<notin> set q" using a by simp_all
  have len: "length (scheme @ h @ q) < MCP_WS_MAX_URL_LEN" using a by simp
  have lenq: "length q < MCP_WS_MAX_PATH_LEN"
    using len by (simp add: MCP_WS_MAX_PATH_LEN_def MCP_WS_MAX_URL_LEN_def)
  have nul: "CHR 0x00 \<notin> set (h @ q)" using h(4) q(2) by simp
  show "fst (parse_url URL_ALLOC_OK (scheme @ h @ q) s) = ESP_OK"
    by (simp add: parse_url_scheme [OF sch nul len] parse_url_host_split [OF h q lenq]
        parse_url_port_plain [OF colon])
qed

theorem parse_url_invalid_arg_witness:
  "parse_url URL_ALLOC_OK ''http://example.com'' g_ws_client_zero = (ESP_ERR_INVALID_ARG, g_ws_client_zero)
   \<and> fst (parse_url URL_ALLOC_OK ''ws:///x'' g_ws_client_zero) = ESP_ERR_INVALID_ARG
   \<and> parse_url URL_ALLOC_OK ''ws://example.com:8080/x'' g_ws_client_zero =
       (ESP_OK, g_ws_client_zero\<lparr>use_ssl := False, port := 8080, host := Some ''example.com'',
                                 path := Some ''/x''\<rparr>)
   \<and> fst (parse_url URL_ALLOC_OK ''ws://example.com:70000/x'' g_ws_client_zero) = ESP_ERR_INVALID_ARG
   \<and> fst (parse_url URL_ALLOC_OK ''ws://example.com:abc/x'' g_ws_client_zero) = ESP_ERR_INVALID_ARG
   \<and> fst (parse_url URL_ALLOC_OK ''ws://example.com/x'' g_ws_client_zero) = ESP_OK"
  using
    parse_url_invalid_arg [of "''http://example.com''" g_ws_client_zero "''ws://''" "[]" "''x''"
      "''example.com''" "''8080''" "''/x''"]
    parse_url_invalid_arg [of "''http://example.com''" g_ws_client_zero "''ws://''" "[]" "''x''"
      "''example.com''" "''70000''" "''/x''"]
    parse_url_invalid_arg [of "''http://example.com''" g_ws_client_zero "''ws://''" "[]" "''x''"
      "''example.com''" "''abc''" "''/x''"]
  by (simp add: MCP_WS_MAX_HOST_LEN_def MCP_WS_MAX_URL_LEN_def atoi_8080 atoi_70000 atoi_abc)

subsection \<open>Connecting\<close>

text \<open>
  C1. In state \<^verbatim>\<open>MCP_WS_STATE_CONNECTING\<close> a pass of the task opens the transport. When
  \<^verbatim>\<open>esp_transport_connect\<close> returns a non-negative result and the handshake status is
  101, the state becomes \<^verbatim>\<open>MCP_WS_STATE_CONNECTED\<close>, the reconnect counter is 0 and
  \<^verbatim>\<open>trigger_event\<close> hands exactly one event, \<^verbatim>\<open>MCP_WS_EVENT_CONNECTED\<close>, to the
  registered callback (the event goes to the callback in the struct; with none
  registered there is nobody to hand it to). When the result is negative or the status
  is anything but 101, the state becomes \<^verbatim>\<open>MCP_WS_STATE_DISCONNECTED\<close>, the counter
  keeps its value and no event is emitted.
\<close>

theorem connecting_outcome:
  assumes "state s = MCP_WS_STATE_CONNECTING"
  shows "(0 \<le> connect_result e \<and> upgrade_request_status e = 101 \<longrightarrow>
            (\<exists>s'. websocket_main_task_step e s = Some s'
               \<and> state s' = MCP_WS_STATE_CONNECTED
               \<and> reconnect_count s' = 0
               \<and> callbacks_of (trace s') = callbacks_of (trace s) @
                    (case event_callback s of
                       None \<Rightarrow> []
                     | Some cb \<Rightarrow> [\<lparr>event_type = MCP_WS_EVENT_CONNECTED, event_data = None,
                                    event_data_len = 0, error_code = ESP_OK\<rparr>])))
       \<and> (connect_result e < 0 \<or> upgrade_request_status e \<noteq> 101 \<longrightarrow>
            (\<exists>s'. websocket_main_task_step e s = Some s'
               \<and> state s' = MCP_WS_STATE_DISCONNECTED
               \<and> reconnect_count s' = reconnect_count s
               \<and> callbacks_of (trace s') = callbacks_of (trace s)))"
  using assms
  by (auto simp: websocket_main_task_step_def connecting_step_def Let_def trigger_event_def
      set_state_eq callbacks_of_append
      split: option.splits)

theorem connecting_outcome_witness:
  "(\<exists>s'. websocket_main_task_step quiet_env (started_client\<lparr>reconnect_count := 4\<rparr>) = Some s'
      \<and> state s' = MCP_WS_STATE_CONNECTED \<and> reconnect_count s' = 0
      \<and> callbacks_of (trace s') = [\<lparr>event_type = MCP_WS_EVENT_CONNECTED, event_data = None,
                                    event_data_len = 0, error_code = ESP_OK\<rparr>])
   \<and> (\<exists>s'. websocket_main_task_step (quiet_env\<lparr>upgrade_request_status := 401\<rparr>)
             (started_client\<lparr>reconnect_count := 4\<rparr>) = Some s'
      \<and> state s' = MCP_WS_STATE_DISCONNECTED \<and> reconnect_count s' = 4)"
  using connecting_outcome [of "started_client\<lparr>reconnect_count := 4\<rparr>" quiet_env]
    connecting_outcome [of "started_client\<lparr>reconnect_count := 4\<rparr>" "quiet_env\<lparr>upgrade_request_status := 401\<rparr>"]
  by (auto simp: quiet_env_def started_client_def g_ws_client_zero_def)

subsection \<open>Writing the queued frames\<close>

text \<open>
  C9. In state \<^verbatim>\<open>MCP_WS_STATE_CONNECTED\<close> a pass of the task writes every queued
  message to the transport. The counter \<^verbatim>\<open>sent_messages\<close> grows by the number of
  messages whose write succeeded, whatever their type, and the events of type
  \<^verbatim>\<open>MCP_WS_EVENT_MESSAGE_SENT\<close> handed to the callback in that pass are exactly those
  of the TEXT messages among them, in order: a PING, PONG or CLOSE written successfully
  is counted and produces no event.
\<close>

theorem sent_counter_and_message_sent_events:
  assumes "state s = MCP_WS_STATE_CONNECTED"
    and "send_queue s = Some q"
    and "transport s"
  shows "\<exists>s'. websocket_main_task_step e s = Some s'
           \<and> sent_messages s' = sent_messages s + of_nat (length (written (send_raw_result e) 0 q))
           \<and> filter is_message_sent (callbacks_of (trace s')) =
               filter is_message_sent (callbacks_of (trace s)) @
                 (case event_callback s of
                    None \<Rightarrow> []
                  | Some cb \<Rightarrow> map message_sent_event
                                 (filter (\<lambda>m. type m = MCP_WS_MSG_TYPE_TEXT)
                                    (written (send_raw_result e) 0 q)))"
proof -
  let ?s0 = "s\<lparr>send_queue := Some []\<rparr>"
  let ?s1 = "drain_send_queue (clock_us e) (send_raw_result e) 0 q ?s0"
  let ?s2 = "snd (enqueue_calls (producers e) ?s1)"
  let ?s3 = "receive_frame e ?s2"
  have step: "websocket_main_task_step e s = Some (vTaskDelay_ms 10 ?s3)"
    using assms by (simp add: websocket_main_task_step_def Let_def)
  have tr0: "transport ?s0" using assms by simp
  have sent: "sent_messages (vTaskDelay_ms 10 ?s3) =
                sent_messages s + of_nat (length (written (send_raw_result e) 0 q))"
    using drain_send_queue_sent [OF tr0]
    by (simp add: vTaskDelay_ms_def receive_frame_sent enqueue_calls_fields)
  have "callbacks_of (trace ?s1) = callbacks_of (trace s) @
          (case event_callback s of
             None \<Rightarrow> []
           | Some cb \<Rightarrow> map message_sent_event
                          (filter (\<lambda>m. type m = MCP_WS_MSG_TYPE_TEXT)
                             (written (send_raw_result e) 0 q)))"
    using drain_send_queue_callbacks [OF tr0] by simp
  then have cbs: "filter is_message_sent (callbacks_of (trace (vTaskDelay_ms 10 ?s3))) =
                filter is_message_sent (callbacks_of (trace s)) @
                  (case event_callback s of
                     None \<Rightarrow> []
                   | Some cb \<Rightarrow> map message_sent_event
                                  (filter (\<lambda>m. type m = MCP_WS_MSG_TYPE_TEXT)
                                     (written (send_raw_result e) 0 q)))"
    by (simp add: vTaskDelay_ms_def callbacks_of_append receive_frame_message_sent
        enqueue_calls_fields filter_message_sent_events split: option.splits)
  show ?thesis
    using step sent cbs by blast
qed

theorem sent_counter_and_message_sent_events_witness:
  "\<exists>s'. websocket_main_task_step (quiet_env\<lparr>send_raw_result := (\<lambda>i. if i = 4 then - 1 else 1)\<rparr>)
           (started_client
              \<lparr>state := MCP_WS_STATE_CONNECTED,
               send_queue := Some
                 [\<lparr>type = MCP_WS_MSG_TYPE_TEXT, data = Some ''hi'', data_len = 2\<rparr>,
                  \<lparr>type = MCP_WS_MSG_TYPE_PING, data = Some ''abcd'', data_len = 4\<rparr>,
                  \<lparr>type = MCP_WS_MSG_TYPE_PONG, data = Some ''abcd'', data_len = 4\<rparr>,
                  \<lparr>type = MCP_WS_MSG_TYPE_CLOSE, data = None, data_len = 0\<rparr>,
                  \<lparr>type = MCP_WS_MSG_TYPE_TEXT, data = Some ''lost'', data_len = 4\<rparr>]\<rparr>) = Some s'
      \<and> sent_messages s' = 4
      \<and> filter is_message_sent (callbacks_of (trace s')) =
           [\<lparr>event_type = MCP_WS_EVENT_MESSAGE_SENT, event_data = Some ''hi'',
             event_data_len = 2, error_code = ESP_OK\<rparr>]"
  using sent_counter_and_message_sent_events
    [of "started_client
           \<lparr>state := MCP_WS_STATE_CONNECTED,
            send_queue := Some
              [\<lparr>type = MCP_WS_MSG_TYPE_TEXT, data = Some ''hi'', data_len = 2\<rparr>,
               \<lparr>type = MCP_WS_MSG_TYPE_PING, data = Some ''abcd'', data_len = 4\<rparr>,
               \<lparr>type = MCP_WS_MSG_TYPE_PONG, data = Some ''abcd'', data_len = 4\<rparr>,
               \<lparr>type = MCP_WS_MSG_TYPE_CLOSE, data = None, data_len = 0\<rparr>,
               \<lparr>type = MCP_WS_MSG_TYPE_TEXT, data = Some ''lost'', data_len = 4\<rparr>]\<rparr>"
        "[\<lparr>type = MCP_WS_MSG_TYPE_TEXT, data = Some ''hi'', data_len = 2\<rparr>,
          \<lparr>type = MCP_WS_MSG_TYPE_PING, data = Some ''abcd'', data_len = 4\<rparr>,
          \<lparr>type = MCP_WS_MSG_TYPE_PONG, data = Some ''abcd'', data_len = 4\<rparr>,
          \<lparr>type = MCP_WS_MSG_TYPE_CLOSE, data = None, data_len = 0\<rparr>,
          \<lparr>type = MCP_WS_MSG_TYPE_TEXT, data = Some ''lost'', data_len = 4\<rparr>]"
        "quiet_env\<lparr>send_raw_result := (\<lambda>i. if i = 4 then - 1 else 1)\<rparr>"]
  by (auto simp: quiet_env_def started_client_def g_ws_client_zero_def message_sent_event_def)

subsection \<open>The bounded send queue\<close>



text \<open>
  The bound on the queue does not depend on memory being available or on the state:
  a pass of the task that starts with at most \<^verbatim>\<open>MCP_WS_SEND_QUEUE_SIZE\<close> messages
  in the queue ends with at most that many, whatever the producers offer meanwhile.
\<close>

theorem send_queue_never_exceeds_capacity:
  assumes "queue_length s \<le> MCP_WS_SEND_QUEUE_SIZE"
    and "websocket_main_task_step e s = Some s'"
  shows "queue_length s' \<le> MCP_WS_SEND_QUEUE_SIZE"
proof (cases "state s")
  case MCP_WS_STATE_IDLE
  have "s' = vTaskDelay_ms 100 s"
    using step_idle [OF MCP_WS_STATE_IDLE, of e] assms(2) by simp
  then have "send_queue s' = send_queue s" by (simp add: vTaskDelay_ms_def)
  then have "queue_length s' = queue_length s" by (rule queue_length_same)
  then show ?thesis using assms(1) by simp
next
  case MCP_WS_STATE_INITIALIZING
  have "s' = set_state (clock_us e)
               (if fst (create_transport_list (transport_init_result e) s) = ESP_OK
                then MCP_WS_STATE_CONNECTING else MCP_WS_STATE_ERROR)
               (snd (create_transport_list (transport_init_result e) s))"
    using step_initializing [OF MCP_WS_STATE_INITIALIZING, of e] assms(2) by simp
  then have "send_queue s' = map_option (\<lambda>q. []) (send_queue s)"
    by (simp add: set_state_eq create_transport_list_queue)
  then have "queue_length s' = 0" by (rule queue_length_emptied)
  then show ?thesis by simp
next
  case MCP_WS_STATE_CONNECTING
  have "s' = connecting_step e s"
    using step_connecting [OF MCP_WS_STATE_CONNECTING, of e] assms(2) by simp
  then have "send_queue s' = send_queue s" by (simp add: connecting_step_queue)
  then have "queue_length s' = queue_length s" by (rule queue_length_same)
  then show ?thesis using assms(1) by simp
next
  case MCP_WS_STATE_CONNECTED
  obtain q where q: "send_queue s = Some q"
    using assms(2) MCP_WS_STATE_CONNECTED
    by (cases "send_queue s") (simp_all add: websocket_main_task_step_def)
  let ?s0 = "s\<lparr>send_queue := Some []\<rparr>"
  let ?d = "drain_send_queue (clock_us e) (send_raw_result e) 0 q ?s0"
  let ?p = "snd (enqueue_calls (producers e) ?d)"
  have s': "s' = vTaskDelay_ms 10 (receive_frame e ?p)"
    using connected_step [OF MCP_WS_STATE_CONNECTED q, of e] assms(2) by simp
  have "send_queue ?d = Some []"
    using drain_send_queue_fields [of "clock_us e" "send_raw_result e" 0 q ?s0] by simp
  then have "queue_length ?d = 0" by (simp add: queue_length_def)
  then have "queue_length ?d \<le> MCP_WS_SEND_QUEUE_SIZE" by simp
  then have "queue_length ?p \<le> MCP_WS_SEND_QUEUE_SIZE" by (rule enqueue_calls_bounded)
  then have "queue_length (receive_frame e ?p) \<le> MCP_WS_SEND_QUEUE_SIZE"
    by (rule receive_frame_bounded)
  moreover have "send_queue s' = send_queue (receive_frame e ?p)"
    by (simp add: s' vTaskDelay_ms_def)
  then have "queue_length s' = queue_length (receive_frame e ?p)" by (rule queue_length_same)
  ultimately show ?thesis by simp
next
  case MCP_WS_STATE_DISCONNECTING
  have "s' = set_state (clock_us e) MCP_WS_STATE_ERROR s"
    using step_disconnecting [OF MCP_WS_STATE_DISCONNECTING, of e] assms(2) by simp
  then have "send_queue s' = send_queue s" by (simp add: set_state_eq)
  then have "queue_length s' = queue_length s" by (rule queue_length_same)
  then show ?thesis using assms(1) by simp
next
  case MCP_WS_STATE_DISCONNECTED
  have "s' = disconnected_step e s"
    using step_disconnected [OF MCP_WS_STATE_DISCONNECTED, of e] assms(2) by simp
  then have "send_queue s' = map_option (\<lambda>q. []) (send_queue s)"
    by (simp add: disconnected_step_queue)
  then have "queue_length s' = 0" by (rule queue_length_emptied)
  then show ?thesis by simp
next
  case MCP_WS_STATE_RECONNECTING
  have "map_option
          (\<lambda>delay_ms. set_state (clock_us e) MCP_WS_STATE_INITIALIZING (vTaskDelay_ms delay_ms s))
          (reconnect_backoff_ms (reconnect_delay_ms (config s)) (reconnect_count s)) = Some s'"
    unfolding step_reconnecting [OF MCP_WS_STATE_RECONNECTING, symmetric] by (rule assms(2))
  then obtain d where "s' = set_state (clock_us e) MCP_WS_STATE_INITIALIZING (vTaskDelay_ms d s)"
    by (auto simp: map_option_eq_Some)
  then have "send_queue s' = send_queue s" by (simp add: set_state_eq vTaskDelay_ms_def)
  then have "queue_length s' = queue_length s" by (rule queue_length_same)
  then show ?thesis using assms(1) by simp
next
  case MCP_WS_STATE_ERROR
  have "s' = vTaskDelay_ms 1000
              (trigger_event MCP_WS_EVENT_ERROR None 0 ESP_FAIL (cleanup_transport s))"
    using step_error [OF MCP_WS_STATE_ERROR, of e] assms(2) by simp
  then have "send_queue s' = map_option (\<lambda>q. []) (send_queue s)"
    by (simp add: vTaskDelay_ms_def trigger_event_queue cleanup_transport_queue)
  then have "queue_length s' = 0" by (rule queue_length_emptied)
  then show ?thesis by simp
qed

theorem send_queue_never_exceeds_capacity_witness:
  "\<exists>s'. websocket_main_task_step
           (quiet_env\<lparr>producers := replicate 12 (MSG_ALLOC_OK, MCP_WS_MSG_TYPE_TEXT, Some ''x'', 1)\<rparr>)
           (started_client\<lparr>state := MCP_WS_STATE_CONNECTED\<rparr>) = Some s'
      \<and> queue_length s' \<le> 10"
proof -
  let ?e = "quiet_env\<lparr>producers := replicate 12 (MSG_ALLOC_OK, MCP_WS_MSG_TYPE_TEXT, Some ''x'', 1)\<rparr>"
  let ?s = "started_client\<lparr>state := MCP_WS_STATE_CONNECTED\<rparr>"
  have "\<exists>s'. websocket_main_task_step ?e ?s = Some s'"
    by (simp add: websocket_main_task_step_def started_client_def g_ws_client_zero_def)
  then obtain s' where st: "websocket_main_task_step ?e ?s = Some s'" by blast
  have "queue_length ?s \<le> MCP_WS_SEND_QUEUE_SIZE"
    by (simp add: queue_length_def started_client_def g_ws_client_zero_def)
  then have "queue_length s' \<le> 10"
    using send_queue_never_exceeds_capacity [OF _ st] by (simp add: MCP_WS_SEND_QUEUE_SIZE_def)
  then show ?thesis using st by blast
qed

subsection \<open>A CLOSE frame\<close>

text \<open>
  C7, as the claim states it, fails in two places. The opcode is looked at only when
  the read returns a positive length, so a CLOSE frame reported with length 0 leaves
  the state \<^verbatim>\<open>MCP_WS_STATE_CONNECTED\<close>. And when a stop was requested, the loop of the
  task ends before the pass that would handle \<^verbatim>\<open>MCP_WS_STATE_DISCONNECTED\<close>: the
  state stays \<^verbatim>\<open>MCP_WS_STATE_DISCONNECTED\<close> and never becomes \<^verbatim>\<open>MCP_WS_STATE_IDLE\<close>.
\<close>

theorem close_frame_not_as_claimed:
  "map_option state
     (websocket_main_task_step
        (quiet_env\<lparr>read_len := 0, read_opcode := WS_TRANSPORT_OPCODES_CLOSE\<rparr>)
        (started_client\<lparr>state := MCP_WS_STATE_CONNECTED\<rparr>)) = Some MCP_WS_STATE_CONNECTED
   \<and> map_option state
     (websocket_main_task_loop [quiet_env]
        (mcp_websocket_stop_request MSG_ALLOC_OK 8000000
           (started_client\<lparr>state := MCP_WS_STATE_DISCONNECTED\<rparr>))) = Some MCP_WS_STATE_DISCONNECTED"
  by (simp add: websocket_main_task_step_def receive_frame_def vTaskDelay_ms_def
      mcp_websocket_stop_request_def websocket_main_task_exit_def set_state_eq
      quiet_env_def started_client_def g_ws_client_zero_def Let_def)

text \<open>
  C7, amended. On an initialized client with its send queue and transport in place,
  while no stop has been requested, a pass of the task in state
  \<^verbatim>\<open>MCP_WS_STATE_CONNECTED\<close> that reads a CLOSE frame with a positive length leaves
  the state \<^verbatim>\<open>MCP_WS_STATE_DISCONNECTED\<close> and the reconnect counter as it was. The next
  pass of the loop then takes the state to \<^verbatim>\<open>MCP_WS_STATE_RECONNECTING\<close> with the
  counter one higher when auto-reconnect is enabled, and to \<^verbatim>\<open>MCP_WS_STATE_IDLE\<close> with
  the counter unchanged when it is not. When instead \<^verbatim>\<open>mcp_websocket_stop\<close> requests
  a stop before that pass, the loop ends without it: the state stays
  \<^verbatim>\<open>MCP_WS_STATE_DISCONNECTED\<close>, the counter is unchanged and the task is gone.
\<close>

theorem close_frame_outcome:
  assumes "state s = MCP_WS_STATE_CONNECTED"
    and "send_queue s = Some q"
    and "transport s"
    and "initialized s"
    and "\<not> should_stop s"
    and "0 < read_len e"
    and "read_opcode e = WS_TRANSPORT_OPCODES_CLOSE"
  shows "\<exists>s1. websocket_main_task_loop [e] s = Some s1
           \<and> state s1 = MCP_WS_STATE_DISCONNECTED
           \<and> reconnect_count s1 = reconnect_count s
           \<and> (\<exists>s2. websocket_main_task_loop [e, e'] s = Some s2
                \<and> (if auto_reconnect_enabled s
                    then state s2 = MCP_WS_STATE_RECONNECTING
                       \<and> reconnect_count s2 = reconnect_count s + 1
                    else state s2 = MCP_WS_STATE_IDLE
                       \<and> reconnect_count s2 = reconnect_count s))
           \<and> (\<exists>s3. websocket_main_task_loop (e' # es) (mcp_websocket_stop_request a t s1) = Some s3
                \<and> state s3 = MCP_WS_STATE_DISCONNECTED
                \<and> reconnect_count s3 = reconnect_count s
                \<and> \<not> main_task s3)"
proof -
  let ?s0 = "s\<lparr>send_queue := Some []\<rparr>"
  let ?d = "drain_send_queue (clock_us e) (send_raw_result e) 0 q ?s0"
  let ?p = "snd (enqueue_calls (producers e) ?d)"
  let ?s1 = "vTaskDelay_ms 10 (receive_frame e ?p)"
  let ?s2 = "disconnected_step e' ?s1"
  let ?r = "mcp_websocket_stop_request a t ?s1"
  have step1: "websocket_main_task_step e s = Some ?s1"
    using assms(1,2) by (rule connected_step)
  have trp: "transport ?p"
    using assms(3) drain_send_queue_fields [of "clock_us e" "send_raw_result e" 0 q ?s0]
    by (simp add: enqueue_calls_fields)
  have rf: "receive_frame e ?p = set_state (clock_us e) MCP_WS_STATE_DISCONNECTED ?p"
    using trp assms(6,7) by (rule receive_frame_close_eq)
  have st1: "state ?s1 = MCP_WS_STATE_DISCONNECTED"
    by (simp add: rf vTaskDelay_ms_def set_state_eq)
  have keep: "reconnect_count ?s1 = reconnect_count s"
    "auto_reconnect_enabled ?s1 = auto_reconnect_enabled s"
    "should_stop ?s1 = should_stop s"
    using drain_send_queue_fields [of "clock_us e" "send_raw_result e" 0 q ?s0]
    by (simp_all add: vTaskDelay_ms_def receive_frame_fields enqueue_calls_fields)
  have init1: "initialized ?s1"
    using assms(4)
    by (simp add: rf vTaskDelay_ms_def set_state_eq enqueue_calls_initialized
        drain_send_queue_initialized)
  have dq: "send_queue ?d = send_queue ?s0"
    using drain_send_queue_fields [of "clock_us e" "send_raw_result e" 0 q ?s0] by simp
  obtain waiting where w: "send_queue (snd (enqueue_calls (producers e) ?s0)) = Some waiting"
    using enqueue_calls_queue_Some [of ?s0 "[]" "producers e"] by auto
  have q1: "send_queue ?s1 = Some waiting"
    using enqueue_calls_queue_cong [OF dq, of "producers e"] w
    by (simp add: rf vTaskDelay_ms_def set_state_eq)
  have loop1: "websocket_main_task_loop [e] s = Some ?s1"
    using step1 assms(5) by simp
  have step2: "websocket_main_task_step e' ?s1 = Some ?s2"
    using st1 by (rule step_disconnected)
  have loop2: "websocket_main_task_loop [e, e'] s = Some ?s2"
    using step1 step2 keep(3) assms(5) by simp
  have out: "if auto_reconnect_enabled s
             then state ?s2 = MCP_WS_STATE_RECONNECTING \<and> reconnect_count ?s2 = reconnect_count s + 1
             else state ?s2 = MCP_WS_STATE_IDLE \<and> reconnect_count ?s2 = reconnect_count s"
    using assms(5) by (simp add: disconnected_step_outcome keep)
  have r: "should_stop ?r" "state ?r = MCP_WS_STATE_DISCONNECTED" "send_queue ?r = Some waiting"
    "reconnect_count ?r = reconnect_count s"
    using stop_request_when_disconnected [OF init1 st1, of a t] q1 keep(1) by simp_all
  have loop3: "websocket_main_task_loop (e' # es) ?r = Some (?r\<lparr>send_queue := Some [], main_task := False\<rparr>)"
    using r(1,3) by (simp add: websocket_main_task_exit_def)
  have s3: "state (?r\<lparr>send_queue := Some [], main_task := False\<rparr>) = MCP_WS_STATE_DISCONNECTED"
    "reconnect_count (?r\<lparr>send_queue := Some [], main_task := False\<rparr>) = reconnect_count s"
    "\<not> main_task (?r\<lparr>send_queue := Some [], main_task := False\<rparr>)"
    using r(2,4) by simp_all
  show ?thesis
    using loop1 st1 keep(1) loop2 out loop3 s3 by blast
qed

theorem close_frame_outcome_witness:
  "(\<exists>s2. websocket_main_task_loop
           [quiet_env\<lparr>read_len := 2, read_opcode := WS_TRANSPORT_OPCODES_CLOSE,
                      recv_buffer := [CHR 0x03, CHR 0xE8]\<rparr>, quiet_env]
           (started_client\<lparr>state := MCP_WS_STATE_CONNECTED\<rparr>) = Some s2
      \<and> state s2 = MCP_WS_STATE_RECONNECTING \<and> reconnect_count s2 = 1)"
  using close_frame_outcome
    [of "started_client\<lparr>state := MCP_WS_STATE_CONNECTED\<rparr>" "[]"
        "quiet_env\<lparr>read_len := 2, read_opcode := WS_TRANSPORT_OPCODES_CLOSE,
                   recv_buffer := [CHR 0x03, CHR 0xE8]\<rparr>" quiet_env "[]" MSG_ALLOC_OK 0]
  by (auto simp: quiet_env_def started_client_def g_ws_client_zero_def)

subsection \<open>A PING frame\<close>

text \<open>
  C6, as the claim states it, fails: the PONG is offered to the send queue with
  \<^verbatim>\<open>enqueue_send_message\<close>, which drops it when the queue is full. Here ten TEXT
  messages are enqueued by a producer while the task waits in the read that returns
  the PING; the pass ends with those ten messages in the queue and no PONG.
\<close>

theorem ping_reply_dropped:
  "map_option send_queue
     (websocket_main_task_step
        (quiet_env\<lparr>producers := replicate 10 (MSG_ALLOC_OK, MCP_WS_MSG_TYPE_TEXT, Some ''x'', 1),
                   read_len := 2, read_opcode := WS_TRANSPORT_OPCODES_PING,
                   recv_buffer := ''ab''\<rparr>)
        (started_client\<lparr>state := MCP_WS_STATE_CONNECTED\<rparr>)) =
   Some (Some (replicate 10 \<lparr>type = MCP_WS_MSG_TYPE_TEXT, data = Some ''x'', data_len = 1\<rparr>))"
  by (simp add: websocket_main_task_step_def quiet_env_def started_client_def g_ws_client_zero_def
      Let_def enqueue_send_message_def receive_frame_def vTaskDelay_ms_def
      MCP_WS_SEND_QUEUE_SIZE_def replicate_numeral)

text \<open>
  C6, amended. A pass of the task in state \<^verbatim>\<open>MCP_WS_STATE_CONNECTED\<close> that reads a PING
  frame (a positive length with the PING opcode) leaves \<^verbatim>\<open>received_messages\<close> as it
  was and makes one offer of a PONG whose payload is the bytes read: the PONG is
  appended behind the messages waiting in the queue at that moment (those the producers
  enqueued since the queue was emptied at the start of the pass) when fewer than
  \<^verbatim>\<open>MCP_WS_SEND_QUEUE_SIZE\<close> wait there and memory for the copy is available;
  otherwise the queue stays as it is.
\<close>

theorem ping_reply:
  assumes "state s = MCP_WS_STATE_CONNECTED"
    and "send_queue s = Some q"
    and "transport s"
    and "0 < read_len e"
    and "read_opcode e = WS_TRANSPORT_OPCODES_PING"
  shows "\<exists>s' waiting.
           websocket_main_task_step e s = Some s'
         \<and> send_queue (snd (enqueue_calls (producers e) (s\<lparr>send_queue := Some []\<rparr>))) = Some waiting
         \<and> received_messages s' = received_messages s
         \<and> send_queue s' =
             Some (if pong_alloc e = MSG_ALLOC_OK \<and> length waiting < MCP_WS_SEND_QUEUE_SIZE
                   then waiting @ [\<lparr>type = MCP_WS_MSG_TYPE_PONG,
                                    data = Some (take (nat (read_len e)) (recv_buffer e)),
                                    data_len = nat (read_len e)\<rparr>]
                   else waiting)"
proof -
  let ?s0 = "s\<lparr>send_queue := Some []\<rparr>"
  let ?d = "drain_send_queue (clock_us e) (send_raw_result e) 0 q ?s0"
  let ?p = "snd (enqueue_calls (producers e) ?d)"
  let ?s' = "vTaskDelay_ms 10 (receive_frame e ?p)"
  have step: "websocket_main_task_step e s = Some ?s'"
    using assms(1,2) by (rule connected_step)
  have dq: "send_queue ?d = send_queue ?s0"
    using drain_send_queue_fields [of "clock_us e" "send_raw_result e" 0 q ?s0] by simp
  obtain waiting where w: "send_queue (snd (enqueue_calls (producers e) ?s0)) = Some waiting"
    using enqueue_calls_queue_Some [of ?s0 "[]" "producers e"] by auto
  have pq: "send_queue ?p = Some waiting"
    using enqueue_calls_queue_cong [OF dq, of "producers e"] w by simp
  have trp: "transport ?p"
    using assms(3) drain_send_queue_fields [of "clock_us e" "send_raw_result e" 0 q ?s0]
    by (simp add: enqueue_calls_fields)
  have rf: "receive_frame e ?p =
              snd (enqueue_send_message (pong_alloc e) MCP_WS_MSG_TYPE_PONG
                     (Some (recv_buffer e)) (nat (read_len e)) ?p)"
    using trp assms(4,5) by (simp add: receive_frame_def Let_def)
  have rcv: "received_messages ?s' = received_messages s"
    using drain_send_queue_fields [of "clock_us e" "send_raw_result e" 0 q ?s0]
    by (simp add: rf vTaskDelay_ms_def enqueue_send_message_fields enqueue_calls_fields)
  have npos: "0 < nat (read_len e)" using assms(4) by simp
  have que: "send_queue ?s' =
               Some (if pong_alloc e = MSG_ALLOC_OK \<and> length waiting < MCP_WS_SEND_QUEUE_SIZE
                     then waiting @ [\<lparr>type = MCP_WS_MSG_TYPE_PONG,
                                      data = Some (take (nat (read_len e)) (recv_buffer e)),
                                      data_len = nat (read_len e)\<rparr>]
                     else waiting)"
    using npos
    by (simp add: rf vTaskDelay_ms_def enqueue_send_message_queue pq message_of_def)
  show ?thesis
    using step w rcv que by blast
qed

theorem ping_reply_witness:
  "\<exists>s'. websocket_main_task_step
           (quiet_env\<lparr>read_len := 2, read_opcode := WS_TRANSPORT_OPCODES_PING,
                      recv_buffer := ''ab''\<rparr>)
           (started_client\<lparr>state := MCP_WS_STATE_CONNECTED, received_messages := 5\<rparr>) = Some s'
      \<and> received_messages s' = 5
      \<and> send_queue s' = Some [\<lparr>type = MCP_WS_MSG_TYPE_PONG, data = Some ''ab'', data_len = 2\<rparr>]"
  using ping_reply
    [of "started_client\<lparr>state := MCP_WS_STATE_CONNECTED, received_messages := 5\<rparr>" "[]"
        "quiet_env\<lparr>read_len := 2, read_opcode := WS_TRANSPORT_OPCODES_PING,
                   recv_buffer := ''ab''\<rparr>"]
  by (auto simp: quiet_env_def started_client_def g_ws_client_zero_def MCP_WS_SEND_QUEUE_SIZE_def)

subsection \<open>The statistics counters\<close>

text \<open>
  C8, as the claim states it, fails for the reconnect counter: the pass that completes
  a connection sets \<^verbatim>\<open>reconnect_count\<close> to 0. Here it is 4 before the pass and 0
  after it.
\<close>

theorem reconnect_count_reset:
  "map_option reconnect_count
     (websocket_main_task_step quiet_env (started_client\<lparr>reconnect_count := 4\<rparr>)) = Some 0"
  by (simp add: websocket_main_task_step_def connecting_step_def quiet_env_def started_client_def
      g_ws_client_zero_def set_state_eq trigger_event_def Let_def)

text \<open>
  C8, amended. In every pass of the task the counters \<^verbatim>\<open>sent_messages\<close> and
  \<^verbatim>\<open>received_messages\<close> do not decrease, as long as the 32-bit counters do not wrap
  around (a pass writes at most the messages waiting in the queue and receives at most
  one frame). The counter \<^verbatim>\<open>reconnect_count\<close> does not decrease either, short of
  wrap-around, except in the pass from \<^verbatim>\<open>MCP_WS_STATE_CONNECTING\<close> to
  \<^verbatim>\<open>MCP_WS_STATE_CONNECTED\<close>, which resets it to 0.
\<close>

theorem counters_step:
  assumes "websocket_main_task_step e s = Some s'"
  shows "(unat (sent_messages s) + queue_length s < 2 ^ 32 \<longrightarrow> sent_messages s \<le> sent_messages s')
       \<and> (unat (received_messages s) + 1 < 2 ^ 32 \<longrightarrow> received_messages s \<le> received_messages s')
       \<and> (unat (reconnect_count s) + 1 < 2 ^ 32 \<longrightarrow>
            reconnect_count s \<le> reconnect_count s'
            \<or> (state s = MCP_WS_STATE_CONNECTING \<and> state s' = MCP_WS_STATE_CONNECTED
                \<and> reconnect_count s' = 0))"
proof -
  have facts: "(\<exists>k\<le>queue_length s. sent_messages s' = sent_messages s + of_nat k)
       \<and> (received_messages s' = received_messages s \<or> received_messages s' = received_messages s + 1)
       \<and> (reconnect_count s' = reconnect_count s
          \<or> reconnect_count s' = reconnect_count s + 1
          \<or> (state s = MCP_WS_STATE_CONNECTING \<and> state s' = MCP_WS_STATE_CONNECTED
              \<and> reconnect_count s' = 0))"
  proof (cases "state s = MCP_WS_STATE_CONNECTED")
    case True
    then show ?thesis using connected_step_counters [OF True assms] by blast
  next
    case False
    have "sent_messages s' = sent_messages s + of_nat 0"
      using other_step_counters [OF False assms] by simp
    then have "\<exists>k\<le>queue_length s. sent_messages s' = sent_messages s + of_nat k" by blast
    then show ?thesis using other_step_counters [OF False assms] by blast
  qed
  have sent: "unat (sent_messages s) + queue_length s < 2 ^ 32 \<longrightarrow> sent_messages s \<le> sent_messages s'"
  proof
    assume b: "unat (sent_messages s) + queue_length s < 2 ^ 32"
    obtain k where k: "k \<le> queue_length s" "sent_messages s' = sent_messages s + of_nat k"
      using facts by blast
    have "unat (sent_messages s) + k < 2 ^ 32" using b k(1) by simp
    then show "sent_messages s \<le> sent_messages s'"
      using k(2) word32_le_plus_of_nat by simp
  qed
  have one: "\<And>a :: 32 word. unat a + 1 < 2 ^ 32 \<Longrightarrow> a \<le> a + 1"
    using word32_le_plus_of_nat [of _ 1] by simp
  have rcv: "unat (received_messages s) + 1 < 2 ^ 32 \<longrightarrow> received_messages s \<le> received_messages s'"
    using facts one by auto
  have rc: "unat (reconnect_count s) + 1 < 2 ^ 32 \<longrightarrow>
            reconnect_count s \<le> reconnect_count s'
            \<or> (state s = MCP_WS_STATE_CONNECTING \<and> state s' = MCP_WS_STATE_CONNECTED
                \<and> reconnect_count s' = 0)"
    using facts one by auto
  show ?thesis using sent rcv rc by blast
qed

theorem counters_step_witness:
  "\<exists>s'. websocket_main_task_step
           (quiet_env\<lparr>read_len := 2, read_opcode := WS_TRANSPORT_OPCODES_TEXT, recv_buffer := ''{}''\<rparr>)
           (started_client
              \<lparr>state := MCP_WS_STATE_CONNECTED,
               send_queue := Some [\<lparr>type = MCP_WS_MSG_TYPE_TEXT, data = Some ''hi'', data_len = 2\<rparr>],
               sent_messages := 7, received_messages := 8, reconnect_count := 0\<rparr>) = Some s'
      \<and> 7 \<le> sent_messages s' \<and> 8 \<le> received_messages s' \<and> 0 \<le> reconnect_count s'"
proof -
  let ?e = "quiet_env\<lparr>read_len := 2, read_opcode := WS_TRANSPORT_OPCODES_TEXT, recv_buffer := ''{}''\<rparr>"
  let ?s = "started_client
              \<lparr>state := MCP_WS_STATE_CONNECTED,
               send_queue := Some [\<lparr>type = MCP_WS_MSG_TYPE_TEXT, data = Some ''hi'', data_len = 2\<rparr>],
               sent_messages := 7, received_messages := 8, reconnect_count := 0\<rparr>"
  have "\<exists>s'. websocket_main_task_step ?e ?s = Some s'"
    by (simp add: websocket_main_task_step_def started_client_def g_ws_client_zero_def)
  then obtain s' where st: "websocket_main_task_step ?e ?s = Some s'" by blast
  have "7 \<le> sent_messages s' \<and> 8 \<le> received_messages s' \<and> 0 \<le> reconnect_count s'"
    using counters_step [OF st]
    by (simp add: started_client_def g_ws_client_zero_def queue_length_def)
  then show ?thesis using st by blast
qed

subsection \<open>Initialising twice\<close>

text \<open>
  C10, as the claim states it, fails on the return value: the test for a \<^verbatim>\<open>NULL\<close>
  configuration or an empty endpoint comes before the test of \<^verbatim>\<open>initialized\<close>, so
  on an initialized client a configuration with an empty endpoint is answered with
  \<^verbatim>\<open>ESP_ERR_INVALID_ARG\<close>, not \<^verbatim>\<open>ESP_OK\<close>.
\<close>

theorem init_empty_endpoint_when_initialized:
  "fst (mcp_websocket_init
     \<lparr>init_url_alloc = URL_ALLOC_OK, queue_created = True, timer_create_result = ESP_OK,
      init_clock_us = 9000000\<rparr>
     (Some \<lparr>endpoint = [], config_event_callback = Some 2,
            auto_reconnect = False, reconnect_delay_ms = 1000, ping_interval_ms = 3000\<rparr>)
     started_client) = ESP_ERR_INVALID_ARG
   \<and> initialized started_client"
  by (simp add: mcp_websocket_init_def started_client_def g_ws_client_zero_def strlen_def c_str_def)

text \<open>
  C10, amended. \<^verbatim>\<open>mcp_websocket_init\<close> on an initialized client leaves the whole
  client struct unchanged, whatever the new configuration and whatever the queue and
  timer services would answer; it returns \<^verbatim>\<open>ESP_OK\<close> when the configuration is not
  \<^verbatim>\<open>NULL\<close> and its endpoint is not empty, and \<^verbatim>\<open>ESP_ERR_INVALID_ARG\<close> otherwise.
\<close>

theorem init_when_initialized:
  assumes "initialized s"
  shows "mcp_websocket_init ie cfg s =
           ((case cfg of
               None \<Rightarrow> ESP_ERR_INVALID_ARG
             | Some c \<Rightarrow> if strlen (endpoint c) = 0 then ESP_ERR_INVALID_ARG else ESP_OK),
            s)"
  using assms by (simp add: mcp_websocket_init_def split: option.splits)

theorem init_when_initialized_witness:
  "mcp_websocket_init
     \<lparr>init_url_alloc = URL_ALLOC_OK, queue_created = True, timer_create_result = ESP_OK,
      init_clock_us = 9000000\<rparr>
     (Some \<lparr>endpoint = ''wss://other.example/mcp/'', config_event_callback = Some 2,
            auto_reconnect = False, reconnect_delay_ms = 1000, ping_interval_ms = 3000\<rparr>)
     started_client = (ESP_OK, started_client)"
  using init_when_initialized [of started_client
     "\<lparr>init_url_alloc = URL_ALLOC_OK, queue_created = True, timer_create_result = ESP_OK,
      init_clock_us = 9000000\<rparr>"
     "Some \<lparr>endpoint = ''wss://other.example/mcp/'', config_event_callback = Some 2,
            auto_reconnect = False, reconnect_delay_ms = 1000, ping_interval_ms = 3000\<rparr>"]
  by (simp add: started_client_def g_ws_client_zero_def strlen_def c_str_def)

subsection \<open>Backoff delay\<close>

lemma reconnect_backoff_ms_small:
  "count \<le> 3 \<Longrightarrow> reconnect_backoff_ms base count = Some base"
  by (auto simp: reconnect_backoff_ms_def)

text \<open>
  Where the product does not overflow and the shift is defined, the delay is the one
  the specification gives: the base delay up to the third attempt, then doubled per
  attempt and capped at 60000 ms.
\<close>

theorem reconnect_backoff_ms_in_range:
  assumes "3 < count"
    and "unat count - 3 < 31"
    and "unat base * 2 ^ (unat count - 3) < 2 ^ 32"
  shows "reconnect_backoff_ms base count =
           Some (of_nat (spec_backoff_ms (unat base) (unat count)))"
proof -
  let ?n = "unat count - 3"
  have three: "unat (3 :: 32 word) = 3" by simp
  have le: "(3 :: 32 word) \<le> count" using assms(1) by simp
  have sub: "unat (count - 3) = ?n"
    using unat_sub [OF le] by simp
  have gt: "3 < unat count"
    using assms(1) by (simp add: word_less_nat_alt)
  have p2: "(push_bit ?n 1 :: 32 word) = 2 ^ ?n"
    by (simp add: push_bit_eq_mult)
  have small: "(2 :: nat) ^ ?n < 2 ^ 32"
    using assms(2) by (intro power_strict_increasing) simp_all
  have "(2 :: 32 word) ^ ?n = of_nat (2 ^ ?n)" by simp
  then have u2: "unat ((2 :: 32 word) ^ ?n) = 2 ^ ?n"
    using small by (simp only: unat_of_nat) simp
  have prod: "unat (base * 2 ^ ?n) = unat base * 2 ^ ?n"
    using assms(3) u2 by (simp add: unat_word_ariths)
  have cap: "unat (60000 :: 32 word) = 60000" by simp
  show ?thesis
  proof (cases "60000 < unat base * 2 ^ ?n")
    case True
    then have "(60000 :: 32 word) < base * 2 ^ ?n"
      using prod cap by (simp add: word_less_nat_alt)
    then show ?thesis
      using assms(1,2) True gt
      by (simp add: reconnect_backoff_ms_def spec_backoff_ms_def sub p2 Let_def min_def)
  next
    case False
    then have nb: "\<not> (60000 :: 32 word) < base * 2 ^ ?n"
      using prod cap by (simp add: word_less_nat_alt)
    have "base * 2 ^ ?n = of_nat (unat base * 2 ^ ?n)"
      unfolding prod [symmetric] by simp
    then show ?thesis
      using assms(1,2) False gt nb
      by (simp add: reconnect_backoff_ms_def spec_backoff_ms_def sub p2 Let_def min_def)
  qed
qed

theorem reconnect_backoff_ms_in_range_witness:
  "reconnect_backoff_ms 5000 5 = Some 20000 \<and> reconnect_backoff_ms 5000 7 = Some 60000"
  using reconnect_backoff_ms_in_range [of 5 5000] reconnect_backoff_ms_in_range [of 7 5000]
  by (simp add: spec_backoff_ms_def)

lemma reconnect_backoff_ms_examples:
  "map (reconnect_backoff_ms 5000) [1, 2, 3, 4, 5] =
     [Some 5000, Some 5000, Some 5000, Some 10000, Some 20000]"
  by (simp add: reconnect_backoff_ms_def)

text \<open>
  C3. The specification gives the delay of attempt \<open>k > 3\<close> as
  \<open>min (base_delay * 2^(k-3)) 60000\<close> ms. With the default base delay of 5000 ms and
  \<open>k = 32\<close> the code multiplies \<open>5000\<close> by \<open>2^29\<close> in 32 bits, which is
  \<open>625 * 2^32\<close> and wraps to \<open>0\<close>: the computed delay is 0 ms, where the specification
  (and the code's own cap of 60 seconds) gives 60000 ms.
\<close>

theorem reconnect_backoff_wraps_to_zero:
  "reconnect_backoff_ms MCP_WS_RECONNECT_DELAY_MS 32 = Some 0 \<and>
   spec_backoff_ms (unat MCP_WS_RECONNECT_DELAY_MS) 32 = 60000"
  by (simp add: reconnect_backoff_ms_def spec_backoff_ms_def MCP_WS_RECONNECT_DELAY_MS_def)

end
